theory Spec2Isabelle
  imports Main
begin

unbundle bit_operations_syntax

section \<open>Data model of the recursive-descent parser (src/Parser.py)\<close>

text \<open>
  Python values that may be \<open>None\<close> are options; a type is a nominal string.
  \<open>truthy\<close> is Python's truth value of such a value (\<open>None\<close> and the empty
  string are false) and \<open>py_or\<close> is the operator \<open>or\<close> on them.
\<close>

type_synonym tyopt = "string option"

definition truthy :: "tyopt \<Rightarrow> bool" where
  "truthy t = (case t of None \<Rightarrow> False | Some v \<Rightarrow> v \<noteq> [])"

definition py_or :: "tyopt \<Rightarrow> tyopt \<Rightarrow> tyopt" where
  "py_or a b = (if truthy a then a else b)"

text \<open>Exceptions the parser can raise, and running out of fuel (no answer yet).\<close>

datatype error = OutOfFuel | KeyError | ValueError | AttributeError

abbreviation Ok :: "'a \<Rightarrow> error + 'a" where
  "Ok \<equiv> Inr"

abbreviation Err :: "error \<Rightarrow> error + 'a" where
  "Err \<equiv> Inl"

definition thenR :: "error + 'a \<Rightarrow> ('a \<Rightarrow> error + 'b) \<Rightarrow> error + 'b" where
  "thenR m f = (case m of Inl e \<Rightarrow> Inl e | Inr x \<Rightarrow> f x)"

text \<open>
  A token as the parser reads it: \<open>Token.type\<close> and \<open>Token.value\<close>. The tokenizer is
  outside the source; the parser takes its output as a list of tokens.
\<close>

record token =
  ttype :: string
  tvalue :: string

text \<open>
  The values the parser hands to the backend's \<open>literal\<close>. \<open>float(text)\<close> is kept as
  the text it converts.
\<close>

datatype lit = LInt int | LFloat string | LBool bool | LStr string

text \<open>
  A line comment is either a comment of the script, or the panic message
  \<open>f'PANIC! <{escaped}> unexpected at {token}'\<close>, kept unformatted because the
  token's conversion to a string is outside the source.
\<close>

datatype comment = Text string | Panic string token

text \<open>
  Modelled from the spec: the emission backend (\<open>self.out\<close>, outside the source) is an
  ordered log of the calls it receives. Producers handed to a call are represented
  by what the call can show of them (a count, or the names they are stored under).
\<close>

datatype event =
    DefineClass string string bool
  | LineComment comment
  | MultilineComment string
  | EndScript
  | EnumDef string string
  | Annotation string string string
  | AddLayer
  | DefineMethod string "(string \<times> string) list" "string list" tyopt bool
  | UpScope
  | DownScope
  | DefineSignal string "(string \<times> string) list"
  | BreakStmt
  | ContinueStmt
  | IfStmt
  | ElifStmt
  | ElseStmt
  | WhileStmt
  | ForStmt string string
  | MatchStmt
  | ReturnStmt
  | EndStatement
  | DeclareProperty string string nat nat
  | DeclareVariable string string
  | Assignment tyopt
  | Ternary
  | Operator string
  | Literal lit
  | CreateArray
  | CreateDict
  | Subexpression
  | Call string nat
  | Constructor string nat
  | This
  | Singleton string
  | Variable string
  | Reference string
  | Constant string
  | Subscription
  | Write string

text \<open>
  A \<open>ClassData\<close> object holds references to three dictionaries. The dictionaries live
  in a store (\<open>heap\<close>), so that two objects can share one: Python's \<open>copy\<close> is shallow.
\<close>

type_synonym dict = "string \<rightharpoonup> tyopt"

record ClassData =
  members :: nat
  methods :: nat
  constants :: nat

text \<open>
  The parser object. \<open>cur_id\<close> is the identity of the token object bound to
  \<open>self.current\<close> (its position in the stream): \<open>doWhile\<close> compares token objects, and
  at the end of the stream \<open>advance\<close> rewrites the same object into the \<open>EOF\<close> token.
  \<open>godot_types\<close> is the registry \<open>ref.godot_types\<close>, \<open>heap_top\<close> the next unused
  address, \<open>match_addBreak\<close> the argument the backend gives to \<open>cases\<close> of a match.
\<close>

record parser =
  script_name :: string
  current :: token
  cur_id :: nat
  tokens :: "token list"
  level :: int
  is_tool :: "bool option"
  base_class :: tyopt
  class_name :: tyopt
  classData :: "ClassData option"
  locals :: "string \<rightharpoonup> string"
  godot_types :: "string \<rightharpoonup> ClassData"
  heap :: "nat \<Rightarrow> dict"
  heap_top :: nat
  match_addBreak :: bool
  out :: "event list"

section \<open>Parsing utilities\<close>

definition EOF_token :: token where
  "EOF_token = \<lparr>ttype = ''EOF'', tvalue = ''EOF''\<rparr>"

definition advance :: "parser \<Rightarrow> parser" where
  "advance s =
     (case tokens s of
        [] \<Rightarrow> s\<lparr>current := EOF_token\<rparr>
      | t # ts \<Rightarrow> s\<lparr>current := t, cur_id := Suc (cur_id s), tokens := ts\<rparr>)"

definition match_type :: "string list \<Rightarrow> parser \<Rightarrow> bool" where
  "match_type tys s = (ttype (current s) \<in> set tys)"

definition match_value :: "string list \<Rightarrow> parser \<Rightarrow> bool" where
  "match_value vs s = (tvalue (current s) \<in> set vs)"

definition expect :: "string \<Rightarrow> parser \<Rightarrow> bool \<times> parser" where
  "expect tok s = (if match_value [tok] s then (True, advance s) else (False, s))"

definition consume :: "parser \<Rightarrow> string \<times> parser" where
  "consume s = (tvalue (current s), advance s)"

definition parseType :: "parser \<Rightarrow> string \<times> parser" where
  "parseType s =
     (case consume s of (ty, s1) \<Rightarrow>
        if ty = ''Array'' then
          (case expect ''['' s1 of
             (True, s2) \<Rightarrow>
               (case consume s2 of (el, s3) \<Rightarrow> (el @ ''[]'', snd (expect '']'' s3)))
           | (False, s2) \<Rightarrow> (ty, s2))
        else (ty, s1))"

text \<open>
  \<open>doWhile\<close>: a loop that also stops when the current token object is the one the
  previous iteration started from. \<open>last = -1\<close> is \<open>None\<close>. The loop state other than
  the parser (the local variables the body assigns) is the first component.
\<close>

fun doWhile ::
  "nat \<Rightarrow> ('a \<times> parser \<Rightarrow> bool \<times> parser) \<Rightarrow> ('a \<times> parser \<Rightarrow> error + 'a \<times> parser)
     \<Rightarrow> nat option \<Rightarrow> 'a \<times> parser \<Rightarrow> error + 'a \<times> parser" where
  "doWhile 0 condition body last_tok st = Err OutOfFuel"
| "doWhile (Suc n) condition body last_tok st =
     (if Some (cur_id (snd st)) = last_tok then Ok st
      else
        (case condition st of
           (False, s1) \<Rightarrow> Ok (fst st, s1)
         | (True, s1) \<Rightarrow>
             thenR (body (fst st, s1))
               (doWhile n condition body (Some (cur_id s1)))))"

text \<open>A plain \<open>while\<close> loop, with fuel.\<close>

fun whileLoop ::
  "nat \<Rightarrow> ('a \<times> parser \<Rightarrow> bool \<times> parser) \<Rightarrow> ('a \<times> parser \<Rightarrow> error + 'a \<times> parser)
     \<Rightarrow> 'a \<times> parser \<Rightarrow> error + 'a \<times> parser" where
  "whileLoop 0 condition body st = Err OutOfFuel"
| "whileLoop (Suc n) condition body st =
     (case condition st of
        (False, s1) \<Rightarrow> Ok (fst st, s1)
      | (True, s1) \<Rightarrow> thenR (body (fst st, s1)) (whileLoop n condition body))"

definition join :: "string \<Rightarrow> string list \<Rightarrow> string" where
  "join sep xs = (case xs of [] \<Rightarrow> [] | y # ys \<Rightarrow> y @ concat (map (\<lambda>z. sep @ z) ys))"

definition consumeUntil :: "nat \<Rightarrow> string \<Rightarrow> string \<Rightarrow> parser \<Rightarrow> error + string \<times> parser" where
  "consumeUntil fuel tok separator s =
     thenR
       (doWhile fuel
          (\<lambda>(result, s). (\<not> match_value [tok] s \<and> \<not> match_type [tok] s, s))
          (\<lambda>(result, s). case consume s of (v, s1) \<Rightarrow> Ok (result @ [v], s1))
          None ([], s))
       (\<lambda>(result, s1). Ok (join separator result, s1))"


section \<open>Strings and integers as Python reads them\<close>

text \<open>
  A character of a \<open>string\<close> is a code point below 256; text with other code points
  is outside the model. \<open>is_space\<close> is \<open>str.isspace\<close> on these code points (what
  \<open>int\<close> and \<open>float\<close> strip at both ends), and the decimal digits among them are
  the ASCII digits.
\<close>

definition is_space :: "char \<Rightarrow> bool" where
  "is_space c =
     ((of_char c :: nat) \<in> set [0x09, 0x0A, 0x0B, 0x0C, 0x0D, 0x1C, 0x1D, 0x1E, 0x1F, 0x20,
        0x85, 0xA0])"

definition is_digit :: "char \<Rightarrow> bool" where
  "is_digit c = (48 \<le> (of_char c :: nat) \<and> (of_char c :: nat) \<le> 57)"

definition strip :: "string \<Rightarrow> string" where
  "strip text = rev (dropWhile is_space (rev (dropWhile is_space text)))"

text \<open>Decimal digits, with single underscores allowed between two digits.\<close>

fun digits_val :: "nat \<Rightarrow> bool \<Rightarrow> string \<Rightarrow> nat option" where
  "digits_val acc after_digit [] = (if after_digit then Some acc else None)"
| "digits_val acc after_digit (c # cs) =
     (if is_digit c then digits_val (acc * 10 + (of_char c - 48)) True cs
      else if c = CHR ''_'' \<and> after_digit then digits_val acc False cs
      else None)"

text \<open>\<open>int(text)\<close>: \<open>None\<close> is \<open>ValueError\<close>.\<close>

definition py_int :: "string \<Rightarrow> int option" where
  "py_int text =
     (case strip text of
        [] \<Rightarrow> None
      | c # cs \<Rightarrow>
          if c = CHR ''-'' then map_option (\<lambda>n. - int n) (digits_val 0 False cs)
          else if c = CHR ''+'' then map_option int (digits_val 0 False cs)
          else map_option int (digits_val 0 False (c # cs)))"

text \<open>
  \<open>float(text)\<close> raises \<open>ValueError\<close> unless the stripped text is, after an optional
  sign, \<open>inf\<close>, \<open>infinity\<close> or \<open>nan\<close> in any case, or a number
  \<open>[digits] . digits\<close> or \<open>digits [.]\<close> with an optional exponent
  \<open>e [sign] digits\<close>, where digits may be separated by single underscores. The floating
  point value itself is not modelled.
\<close>

fun after_digits :: "string \<Rightarrow> string" where
  "after_digits [] = []"
| "after_digits [c] = (if is_digit c then [] else [c])"
| "after_digits (c # d # ds) =
     (if is_digit c then after_digits (d # ds)
      else if c = CHR ''_'' \<and> is_digit d then after_digits ds
      else c # d # ds)"

text \<open>The rest after a group of digits at the front, if there is one.\<close>

definition digitpart :: "string \<Rightarrow> string option" where
  "digitpart text =
     (case text of [] \<Rightarrow> None | c # cs \<Rightarrow> if is_digit c then Some (after_digits cs) else None)"

definition number_part :: "string \<Rightarrow> string option" where
  "number_part text =
     (case digitpart text of
        Some r \<Rightarrow>
          (case r of
             [] \<Rightarrow> Some []
           | c # cs \<Rightarrow>
               if c = CHR ''.'' then (case digitpart cs of Some r2 \<Rightarrow> Some r2 | None \<Rightarrow> Some cs)
               else Some r)
      | None \<Rightarrow>
          (case text of
             [] \<Rightarrow> None
           | c # cs \<Rightarrow> if c = CHR ''.'' then digitpart cs else None))"

definition exponent_ok :: "string \<Rightarrow> bool" where
  "exponent_ok text =
     (case text of
        [] \<Rightarrow> True
      | c # cs \<Rightarrow>
          (c = CHR ''e'' \<or> c = CHR ''E'') \<and>
          digitpart (case cs of
                       [] \<Rightarrow> []
                     | d # ds \<Rightarrow> if d = CHR ''+'' \<or> d = CHR ''-'' then ds else cs) = Some [])"

definition lower :: "char \<Rightarrow> char" where
  "lower c =
     (if 65 \<le> (of_char c :: nat) \<and> (of_char c :: nat) \<le> 90 then char_of (of_char c + 32 :: nat)
      else c)"

definition py_float_ok :: "string \<Rightarrow> bool" where
  "py_float_ok text =
     (let t = strip text;
          u = (case t of [] \<Rightarrow> [] | c # cs \<Rightarrow> if c = CHR ''+'' \<or> c = CHR ''-'' then cs else t)
      in map lower u \<in> set [''inf'', ''infinity'', ''nan''] \<or>
         (case number_part u of None \<Rightarrow> False | Some r \<Rightarrow> exponent_ok r))"

text \<open>\<open>t.replace('[]', '')\<close> and \<open>'[]' in t\<close>.\<close>

fun remove_brackets :: "string \<Rightarrow> string" where
  "remove_brackets (a # b # cs) =
     (if a = CHR ''['' \<and> b = CHR '']'' then remove_brackets cs
      else a # remove_brackets (b # cs))"
| "remove_brackets cs = cs"

fun has_brackets :: "string \<Rightarrow> bool" where
  "has_brackets (a # b # cs) = ((a = CHR ''['' \<and> b = CHR '']'') \<or> has_brackets (b # cs))"
| "has_brackets cs = False"

text \<open>\<open>text.replace('\n', '\\n')\<close>.\<close>

definition escape_newlines :: "string \<Rightarrow> string" where
  "escape_newlines text = concat (map (\<lambda>c. if c = CHR 0x0A then [CHR 0x5C, CHR ''n''] else [c]) text)"

text \<open>\<open>t or default\<close>, where the default is a non-empty string.\<close>

definition or_default :: "tyopt \<Rightarrow> string \<Rightarrow> string" where
  "or_default t d = (case t of None \<Rightarrow> d | Some v \<Rightarrow> if v = [] then d else v)"

text \<open>Assignment to a key of an insertion-ordered dictionary.\<close>

fun dict_put :: "(string \<times> 'v) list \<Rightarrow> string \<Rightarrow> 'v \<Rightarrow> (string \<times> 'v) list" where
  "dict_put [] k v = [(k, v)]"
| "dict_put (p # ps) k v = (if fst p = k then (k, v) # ps else p # dict_put ps k v)"

section \<open>The store of dictionaries\<close>

definition dict_get :: "parser \<Rightarrow> nat \<Rightarrow> string \<Rightarrow> tyopt" where
  "dict_get s a k = (case heap s a k of None \<Rightarrow> None | Some v \<Rightarrow> v)"

definition dict_has :: "parser \<Rightarrow> nat \<Rightarrow> string \<Rightarrow> bool" where
  "dict_has s a k = (heap s a k \<noteq> None)"

definition dict_set :: "nat \<Rightarrow> string \<Rightarrow> tyopt \<Rightarrow> parser \<Rightarrow> parser" where
  "dict_set a k v s = s\<lparr>heap := (heap s)(a := (heap s a)(k \<mapsto> v))\<rparr>"

text \<open>\<open>self.classData\<close> is \<open>None\<close> until \<open>transpile\<close> sets it.\<close>

definition get_classData :: "parser \<Rightarrow> error + ClassData" where
  "get_classData s = (case classData s of None \<Rightarrow> Err AttributeError | Some c \<Rightarrow> Ok c)"

text \<open>
  Modelled from the spec: \<open>ClassData.ClassData()\<close> (ClassData.py is outside the source)
  builds an object with three new, empty tables.
\<close>

definition new_ClassData :: "parser \<Rightarrow> ClassData \<times> parser" where
  "new_ClassData s =
     (\<lparr>members = heap_top s, methods = heap_top s + 1, constants = heap_top s + 2\<rparr>,
      s\<lparr>heap := (heap s)(heap_top s := Map.empty, heap_top s + 1 := Map.empty,
                          heap_top s + 2 := Map.empty),
        heap_top := heap_top s + 3\<rparr>)"

text \<open>
  \<open>copy(obj)\<close> of Python's \<open>copy\<close> module is a shallow copy: a new object whose
  attributes are the same three dictionaries.
\<close>

definition copy :: "ClassData \<Rightarrow> ClassData" where
  "copy c = \<lparr>members = members c, methods = methods c, constants = constants c\<rparr>"

section \<open>The backend\<close>

type_synonym cont = "parser \<Rightarrow> error + parser"

type_synonym produced = "tyopt \<times> cont \<times> parser"

definition emit :: "event \<Rightarrow> parser \<Rightarrow> parser" where
  "emit e s = s\<lparr>out := out s @ [e]\<rparr>"

text \<open>
  \<open>next(g)\<close> on a producer \<open>g\<close> that was resumed once before: the second
  resumption runs the suspended rest.
\<close>

definition resume :: "cont \<Rightarrow> cont" where
  "resume k s = k s"

fun run_all :: "cont list \<Rightarrow> cont" where
  "run_all [] s = Ok s"
| "run_all (k # ks) s = thenR (resume k s) (run_all ks)"

text \<open>
  Modelled from the spec: a backend call that is handed producers (each already resumed
  once by the parser) logs the call and resumes each of them once more, in order.
\<close>

definition out_drive :: "event \<Rightarrow> cont list \<Rightarrow> cont" where
  "out_drive e ks s = run_all ks (emit e s)"

definition drive_opt :: "cont option \<Rightarrow> cont" where
  "drive_opt k s = (case k of None \<Rightarrow> Ok s | Some c \<Rightarrow> resume c s)"


section \<open>Line ends and scopes\<close>

text \<open>The \<open>for i in range(self.level - lvl)\<close> loop of \<open>endline\<close>.\<close>

fun down_scopes :: "bool \<Rightarrow> nat \<Rightarrow> nat \<Rightarrow> parser \<Rightarrow> parser" where
  "down_scopes addBreak i 0 s = s"
| "down_scopes addBreak i (Suc n) s =
     (let s1 = (if addBreak \<and> i = 0 then emit BreakStmt (emit (Write [CHR 0x0A]) s) else s);
          s2 = s1\<lparr>level := level s1 - 1\<rparr>
      in down_scopes addBreak (Suc i) n (emit DownScope s2))"

definition emitComments :: "event option \<Rightarrow> parser \<Rightarrow> parser" where
  "emitComments c s = (case c of None \<Rightarrow> s | Some e \<Rightarrow> emit e s)"

text \<open>
  The body of the loop of \<open>endline\<close>; the loop's variables are \<open>lvl\<close> and
  \<open>jumpedLines\<close>.
\<close>

definition endline_body :: "bool \<Rightarrow> (int \<times> nat) \<times> parser \<Rightarrow> error + (int \<times> nat) \<times> parser" where
  "endline_body addBreak st =
     (case st of ((lvl, jumpedLines), s) \<Rightarrow>
      thenR
        (if match_type [''LINE_END''] s then
           (case consume s of (v, s1) \<Rightarrow>
              (case py_int v of
                 None \<Rightarrow> Err ValueError
               | Some i \<Rightarrow> Ok (i, jumpedLines + 1, None, s1)))
         else
           (case consume s of (content, s1) \<Rightarrow>
              Ok (lvl, jumpedLines,
                  Some (if match_type [''COMMENT''] s then LineComment (Text content)
                        else MultilineComment content), s1)))
        (\<lambda>(lvl1, jumped1, comment, s1).
           if match_type [''LINE_END''] s1 then Ok ((lvl1, jumped1), emitComments comment s1)
           else
             (let s2 = (if lvl1 \<noteq> - 1 then down_scopes addBreak 0 (nat (level s1 - lvl1)) s1
                        else s1);
                  s3 = emitComments comment s2
              in Ok ((lvl1, 0), emit (Write (replicate jumped1 (CHR 0x0A))) s3))))"

definition endline :: "nat \<Rightarrow> bool \<Rightarrow> parser \<Rightarrow> error + parser" where
  "endline fuel addBreak s =
     thenR
       (doWhile fuel
          (\<lambda>(loc, s). (match_type [''LINE_END'', ''COMMENT'', ''LONG_STRING''] s, s))
          (endline_body addBreak)
          None ((- 1, 0), s))
       (\<lambda>((lvl, jumpedLines), s1). Ok (emit (Write (replicate jumpedLines (CHR 0x0A))) s1))"

section \<open>The grammar\<close>

text \<open>
  A grammar method of \<open>Parser\<close> that is a generator (a producer) is modelled by its
  first resumption: it returns the value of the first \<open>yield\<close> (the inferred type),
  the suspended rest of the generator, and the parser. Applying the suspended rest
  (\<open>cont\<close>) to a parser is the second resumption, up to the second \<open>yield\<close>.

  The methods call each other through the record \<open>R\<close> (the methods of \<open>self\<close>),
  which \<open>run\<close> closes by recursion on the fuel; the fuel bounds the depth of the calls
  and the iterations of each loop.
\<close>

record grammar =
  fuel :: nat
  r_class_body :: cont
  r_nested_class :: cont
  r_member :: "bool \<Rightarrow> cont"
  r_method :: "bool \<Rightarrow> cont"
  r_Block :: "bool \<Rightarrow> parser \<Rightarrow> error + tyopt \<times> parser"
  r_statement :: "parser \<Rightarrow> error + tyopt \<times> parser"
  r_ifStmt :: "parser \<Rightarrow> error + tyopt \<times> parser"
  r_whileStmt :: "parser \<Rightarrow> error + tyopt \<times> parser"
  r_forStmt :: "parser \<Rightarrow> error + tyopt \<times> parser"
  r_matchStmt :: "parser \<Rightarrow> error + tyopt \<times> parser"
  r_returnStmt :: "parser \<Rightarrow> error + tyopt \<times> parser"
  r_declare :: "tyopt \<Rightarrow> nat \<Rightarrow> cont"
  r_reassign :: cont
  r_assignment :: "tyopt \<Rightarrow> parser \<Rightarrow> error + produced"
  r_expression :: "parser \<Rightarrow> error + produced"
  r_ternary :: "parser \<Rightarrow> error + produced"
  r_boolean :: "parser \<Rightarrow> error + produced"
  r_arithmetic :: "parser \<Rightarrow> error + produced"
  r_arithmetic_inner :: "parser \<Rightarrow> error + produced"
  r_value :: "parser \<Rightarrow> error + produced"
  r_textCode :: "parser \<Rightarrow> error + produced"
  r_call :: "string \<Rightarrow> tyopt \<Rightarrow> parser \<Rightarrow> error + produced"
  r_reference :: "tyopt \<Rightarrow> parser \<Rightarrow> error + produced"
  r_subscription :: "tyopt \<Rightarrow> parser \<Rightarrow> error + produced"

subsection \<open>Expressions\<close>

definition assignment :: "grammar \<Rightarrow> tyopt \<Rightarrow> parser \<Rightarrow> error + produced" where
  "assignment R onreadyName s =
     thenR (r_expression R s)
       (\<lambda>(ty, exp, s1). Ok (ty, out_drive (Assignment onreadyName) [exp], s1))"

definition expression :: "grammar \<Rightarrow> parser \<Rightarrow> error + produced" where
  "expression R s =
     thenR (r_ternary R s)
       (\<lambda>(ty, exp, s1).
          case expect ''as'' s1 of
            (True, s2) \<Rightarrow>
              (case parseType s2 of (ty2, s3) \<Rightarrow>
                 Ok (py_or (Some ty2) (Some ''Variant''), exp, s3))
          | (False, s2) \<Rightarrow> Ok (py_or ty (Some ''Variant''), exp, s2))"

text \<open>
  The generator \<open>impl\<close> of \<open>ternary\<close>, resumed by the backend through its three
  \<open>yield\<close>s (modelled from the spec: the backend drives it to completion).
\<close>

definition ternary_impl :: "grammar \<Rightarrow> cont \<Rightarrow> cont" where
  "ternary_impl R valTrue s =
     thenR (r_boolean R s)
       (\<lambda>(tc, cond, s1).
          thenR (resume cond s1)
            (\<lambda>s2. thenR (r_ternary R (snd (expect ''else'' s2)))
               (\<lambda>(tf, valFalse, s3). thenR (resume valTrue s3) (resume valFalse))))"

definition ternary :: "grammar \<Rightarrow> parser \<Rightarrow> error + produced" where
  "ternary R s =
     thenR (r_boolean R s)
       (\<lambda>(ty, valTrue, s1).
          Ok (ty,
              (\<lambda>s. case expect ''if'' s of
                      (True, s2) \<Rightarrow> out_drive Ternary [ternary_impl R valTrue] s2
                    | (False, s2) \<Rightarrow> resume valTrue s2),
              s1))"

text \<open>\<open>self.consume() if self.match_type(kind) else None\<close>.\<close>

definition consume_if :: "string \<Rightarrow> parser \<Rightarrow> tyopt \<times> parser" where
  "consume_if kind s =
     (if match_type [kind] s then (case consume s of (v, s1) \<Rightarrow> (Some v, s1)) else (None, s))"

definition boolean :: "grammar \<Rightarrow> parser \<Rightarrow> error + produced" where
  "boolean R s =
     thenR (r_arithmetic R s)
       (\<lambda>(ar_type, ar1, s1).
          case consume_if ''COMPARISON'' s1 of (op, s2) \<Rightarrow>
            if truthy op then
              thenR (r_boolean R s2)
                (\<lambda>(ar_type2, ar2, s3).
                   Ok (Some ''bool'',
                       (\<lambda>s. thenR (resume ar1 s)
                              (\<lambda>s. resume ar2 (emit (Operator (or_default op [])) s))),
                       s3))
            else Ok (ar_type, ar1, s2))"

definition arithmetic :: "grammar \<Rightarrow> parser \<Rightarrow> error + produced" where
  "arithmetic R s =
     (case consume_if ''UNARY'' s of (pre_op, s1) \<Rightarrow>
        thenR (r_arithmetic_inner R s1)
          (\<lambda>(ty, ar, s2).
             Ok (ty,
                 (\<lambda>s. resume ar
                        (if truthy pre_op then emit (Operator (or_default pre_op [])) s else s)),
                 s2)))"

text \<open>\<open>_arithmetic\<close> in the source.\<close>

definition arithmetic_inner :: "grammar \<Rightarrow> parser \<Rightarrow> error + produced" where
  "arithmetic_inner R s =
     thenR (r_value R s)
       (\<lambda>(value_type, value1, s1).
          case consume_if ''ARITHMETIC'' s1 of (op, s2) \<Rightarrow>
            if truthy op then
              thenR (r_arithmetic_inner R s2)
                (\<lambda>(value_type2, value2, s3).
                   Ok (value_type2,
                       (\<lambda>s. thenR (resume value1 s)
                              (\<lambda>s. resume value2 (emit (Operator (or_default op [])) s))),
                       s3))
            else Ok (value_type, value1, s2))"

text \<open>
  The generators \<open>iter\<close> of the array and dictionary literals, consumed by the backend
  (modelled from the spec: the backend takes one element at a time and resumes it
  before it asks for the next).
\<close>

definition create_array :: "grammar \<Rightarrow> cont" where
  "create_array R s =
     thenR
       (whileLoop (fuel R)
          (\<lambda>(u, s). case expect '']'' s of (found, s1) \<Rightarrow> (\<not> found, s1))
          (\<lambda>(u, s). thenR (r_expression R s)
             (\<lambda>(ty, val, s1). thenR (resume val (snd (expect '','' s1))) (\<lambda>s2. Ok (u, s2))))
          ((), emit CreateArray s))
       (\<lambda>(u, s1). Ok s1)"

definition create_dict :: "grammar \<Rightarrow> cont" where
  "create_dict R s =
     thenR
       (whileLoop (fuel R)
          (\<lambda>(u, s). case expect ''}'' s of (found, s1) \<Rightarrow> (\<not> found, s1))
          (\<lambda>(u, s). thenR (r_expression R s)
             (\<lambda>(tk, key, s1). thenR (r_expression R (snd (expect '':'' s1)))
                (\<lambda>(tv, val, s2).
                   thenR (resume key (snd (expect '','' s2)))
                     (\<lambda>s3. thenR (resume val s3) (\<lambda>s4. Ok (u, s4))))))
          ((), emit CreateDict s))
       (\<lambda>(u, s1). Ok s1)"

text \<open>\<open>passthrough(self.out.literal, name)\<close>: a producer not yet resumed.\<close>

definition passthrough :: "lit \<Rightarrow> cont" where
  "passthrough v s = Ok (emit (Literal v) s)"

definition value_p :: "grammar \<Rightarrow> parser \<Rightarrow> error + produced" where
  "value_p R s =
     (if match_type [''INT''] s then
        (case consume s of (v, s1) \<Rightarrow>
           (case py_int v of
              None \<Rightarrow> Err ValueError
            | Some val \<Rightarrow> Ok (Some ''int'', passthrough (LInt val), s1)))
      else if match_type [''FLOAT''] s then
        (case consume s of (v, s1) \<Rightarrow>
           if py_float_ok v then Ok (Some ''float'', passthrough (LFloat v), s1)
           else Err ValueError)
      else if tvalue (current s) \<in> set [''true'', ''false''] then
        (case consume s of (v, s1) \<Rightarrow>
           Ok (Some ''bool'', passthrough (LBool (v = ''true'')), s1))
      else if match_type [''LONG_STRING''] s then
        (case consume s of (v, s1) \<Rightarrow> Ok (Some ''string'', passthrough (LStr v), s1))
      else if match_type [''STRING''] s then
        (case consume s of (v, s1) \<Rightarrow> Ok (Some ''string'', passthrough (LStr v), s1))
      else
        (case expect ''['' s of
           (True, s1) \<Rightarrow> Ok (Some ''Array'', create_array R, s1)
         | (False, s1) \<Rightarrow>
        (case expect ''{'' s1 of
           (True, s2) \<Rightarrow> Ok (Some ''Dictionary'', create_dict R, s2)
         | (False, s2) \<Rightarrow>
        (case expect ''('' s2 of
           (True, s3) \<Rightarrow>
             thenR (r_expression R s3)
               (\<lambda>(ty, enclosed, s4).
                  Ok (ty,
                      (\<lambda>s. thenR (out_drive Subexpression [enclosed] s)
                              (\<lambda>s. Ok (snd (expect '')'' s)))),
                      s4))
         | (False, s3) \<Rightarrow>
        (case expect ''$'' s3 of
           (True, s4) \<Rightarrow>
             (case consume s4 of (name, s5) \<Rightarrow>
                Ok (Some ''Node'',
                    out_drive (Call ''get_node'' 1) [passthrough (LStr name)], s5))
         | (False, s4) \<Rightarrow>
        (case expect ''%'' s4 of
           (True, s5) \<Rightarrow>
             (case consume s5 of (name, s6) \<Rightarrow>
                Ok (Some ''Node'',
                    out_drive (Call ''get_node'' 1) [passthrough (LStr (''%'' @ name))], s6))
         | (False, s5) \<Rightarrow>
             if match_type [''TEXT''] s5 then
               thenR (r_textCode R s5) (\<lambda>(ty, content, s6). Ok (ty, content, s6))
             else Ok (None, Ok, s5)))))))"


subsection \<open>Names, calls, references, subscriptions\<close>

text \<open>
  The type of a name in \<open>textCode\<close>: a member, a local, a global constant, or the
  name itself when it is a class of the registry. The operands of \<open>or\<close> are
  evaluated only when the ones before are false.
\<close>

definition textCode_type :: "string \<Rightarrow> bool \<Rightarrow> parser \<Rightarrow> error + tyopt" where
  "textCode_type name singleton s =
     thenR (get_classData s)
       (\<lambda>c. let t1 = dict_get s (members c) name in
          if truthy t1 then Ok t1
          else if truthy (locals s name) then Ok (locals s name)
          else
            (case godot_types s ''@GlobalScope'' of
               None \<Rightarrow> Err KeyError
             | Some g \<Rightarrow>
                 Ok (py_or (dict_get s (constants g) name)
                       (if singleton then Some name else None))))"

definition textCode :: "grammar \<Rightarrow> parser \<Rightarrow> error + produced" where
  "textCode R s =
     (case consume s of (name0, s1) \<Rightarrow>
      case (if name0 = ''self'' then expect ''.'' s1 else (False, s1)) of (this, s2) \<Rightarrow>
      case (if this then consume s2 else (name0, s2)) of (name, s3) \<Rightarrow>
      let singleton = (godot_types s3 name \<noteq> None);
          emit_this = (\<lambda>s. if this then emit This s else s)
      in
      thenR (textCode_type name singleton s3)
        (\<lambda>ty.
           case expect ''('' s3 of
             (True, s4) \<Rightarrow>
               thenR (r_call R name None s4)
                 (\<lambda>(t, call, s5). Ok (t, (\<lambda>s. resume call (emit_this s)), s5))
           | (False, s4) \<Rightarrow>
          (case expect ''.'' s4 of
             (True, s5) \<Rightarrow>
               thenR (r_reference R ty s5)
                 (\<lambda>(t, reference, s6).
                    Ok (t,
                        (\<lambda>s. resume reference
                           (emit (if singleton then Singleton name else Variable name)
                              (emit_this s))),
                        s6))
           | (False, s5) \<Rightarrow>
          (case expect ''['' s5 of
             (True, s6) \<Rightarrow>
               thenR (r_subscription R ty s6)
                 (\<lambda>(t, sub, s7).
                    Ok (t, (\<lambda>s. resume sub (emit (Variable name) (emit_this s))), s7))
           | (False, s6) \<Rightarrow>
               Ok (ty, (\<lambda>s. Ok (emit (Variable name) (emit_this s))), s6)))))"

text \<open>The return type of a call, as \<open>call\<close> computes it before it reads the parameters.\<close>

definition call_type :: "string \<Rightarrow> tyopt \<Rightarrow> parser \<Rightarrow> error + tyopt" where
  "call_type name calling_type s =
     (if godot_types s name \<noteq> None \<and> name \<noteq> [] then Ok (Some name)
      else
        thenR (get_classData s)
          (\<lambda>c. let t2 = dict_get s (methods c) name in
             if truthy t2 then Ok t2
             else
               (case (case calling_type of None \<Rightarrow> None | Some ct \<Rightarrow> godot_types s ct) of
                  Some rc \<Rightarrow> Ok (dict_get s (methods rc) name)
                | None \<Rightarrow>
                    if \<not> truthy calling_type then
                      (case godot_types s ''@GlobalScope'' of
                         None \<Rightarrow> Err KeyError
                       | Some g \<Rightarrow> Ok (dict_get s (methods g) name))
                    else Ok None)))"

definition call :: "grammar \<Rightarrow> string \<Rightarrow> tyopt \<Rightarrow> parser \<Rightarrow> error + produced" where
  "call R name calling_type s =
     (let constructor = (godot_types s name \<noteq> None) in
      thenR (call_type name calling_type s)
        (\<lambda>ty.
           thenR
             (whileLoop (fuel R)
                (\<lambda>(params, s). case expect '')'' s of (found, s1) \<Rightarrow> (\<not> found, s1))
                (\<lambda>(params, s). thenR (r_expression R s)
                   (\<lambda>(t, exp, s1). Ok (params @ [exp], snd (expect '','' s1))))
                ([], s))
             (\<lambda>(params, s1).
                let emit_call =
                  (if constructor then out_drive (Constructor name (length params)) params
                   else out_drive (Call name (length params)) params)
                in
                case expect ''.'' s1 of
                  (True, s2) \<Rightarrow>
                    thenR (r_reference R ty s2)
                      (\<lambda>(t, r, s3). Ok (t, (\<lambda>s. thenR (emit_call s) (resume r)), s3))
                | (False, s2) \<Rightarrow>
               (case expect ''['' s2 of
                  (True, s3) \<Rightarrow>
                    thenR (r_subscription R ty s3)
                      (\<lambda>(t, sub, s4). Ok (t, (\<lambda>s. thenR (emit_call s) (resume sub)), s4))
                | (False, s3) \<Rightarrow> Ok (ty, emit_call, s3)))))"

definition reference :: "grammar \<Rightarrow> tyopt \<Rightarrow> parser \<Rightarrow> error + produced" where
  "reference R ty s =
     (case consume s of (name, s1) \<Rightarrow>
      let member_type =
        (case (case ty of None \<Rightarrow> None | Some t \<Rightarrow> godot_types s1 t) of
           None \<Rightarrow> None
         | Some rc \<Rightarrow> if dict_has s1 (members rc) name then dict_get s1 (members rc) name else None)
      in
      case expect ''('' s1 of
        (True, s2) \<Rightarrow>
          thenR (r_call R name ty s2)
            (\<lambda>(t, call, s3). Ok (t, (\<lambda>s. resume call (emit (Reference []) s)), s3))
      | (False, s2) \<Rightarrow>
     (case expect ''.'' s2 of
        (True, s3) \<Rightarrow>
          thenR (r_reference R member_type s3)
            (\<lambda>(t, r, s4). Ok (t, (\<lambda>s. resume r (emit (Reference name) s)), s4))
      | (False, s3) \<Rightarrow>
     (case expect ''['' s3 of
        (True, s4) \<Rightarrow>
          thenR (r_subscription R ty s4)
            (\<lambda>(t, sub, s5). Ok (t, (\<lambda>s. resume sub (emit (Reference name) s)), s5))
      | (False, s4) \<Rightarrow>
          if truthy ty then
            (case godot_types s4 (or_default ty []) of
               None \<Rightarrow> Err KeyError
             | Some rc \<Rightarrow>
                 if dict_has s4 (constants rc) name then
                   Ok (dict_get s4 (constants rc) name, (\<lambda>s. Ok (emit (Constant name) s)), s4)
                 else Ok (member_type, (\<lambda>s. Ok (emit (Reference name) s)), s4))
          else Ok (member_type, (\<lambda>s. Ok (emit (Reference name) s)), s4))))"

definition subscription :: "grammar \<Rightarrow> tyopt \<Rightarrow> parser \<Rightarrow> error + produced" where
  "subscription R ty0 s =
     (let ty = (case ty0 of
                  None \<Rightarrow> None
                | Some t \<Rightarrow> if has_brackets t then Some (remove_brackets t) else None)
      in
      thenR (r_expression R s)
        (\<lambda>(tk, key, s1).
           case expect ''('' (snd (expect '']'' s1)) of
             (True, s3) \<Rightarrow> thenR (r_call R [] ty s3) (\<lambda>(t, call, s4). Ok (t, call, s4))
           | (False, s3) \<Rightarrow>
          (case expect ''.'' s3 of
             (True, s4) \<Rightarrow>
               thenR (r_reference R ty s4)
                 (\<lambda>(t, refer, s5). Ok (t, out_drive Subscription [key], s5))
           | (False, s4) \<Rightarrow> Ok (ty, out_drive Subscription [key], s4))))"

subsection \<open>Statements\<close>

text \<open>
  \<open>DECL_FLAGS\<close>: an \<open>IntFlag\<close> built from a list of names numbers them
  1, 2, 4, 8, 16.
\<close>

definition DECL_none :: nat where "DECL_none = 1"
definition DECL_static :: nat where "DECL_static = 2"
definition DECL_constant :: nat where "DECL_constant = 4"
definition DECL_property :: nat where "DECL_property = 8"
definition DECL_onready :: nat where "DECL_onready = 16"

text \<open>\<open>self.parseType() if self.expect(':') and self.match_type('TEXT') else None\<close>.\<close>

definition type_annotation :: "parser \<Rightarrow> tyopt \<times> parser" where
  "type_annotation s =
     (case expect '':'' s of
        (True, s1) \<Rightarrow>
          if match_type [''TEXT''] s1 then (case parseType s1 of (t, s2) \<Rightarrow> (Some t, s2))
          else (None, s1)
      | (False, s1) \<Rightarrow> (None, s1))"

definition declare_p :: "grammar \<Rightarrow> tyopt \<Rightarrow> nat \<Rightarrow> cont" where
  "declare_p R name0 flags s =
     (case (if \<not> truthy name0 then consume s else (or_default name0 [], s)) of (name, s1) \<Rightarrow>
      case type_annotation s1 of (ty0, s2) \<Rightarrow>
      thenR
        (case expect ''='' s2 of
           (True, s3) \<Rightarrow>
             thenR (r_assignment R (if flags AND DECL_onready \<noteq> 0 then Some name else None) s3)
               (\<lambda>(ass_type, ass, s4). Ok (py_or ty0 ass_type, Some ass, s4))
         | (False, s3) \<Rightarrow> Ok (ty0, None, s3))
        (\<lambda>(ty1, ass, s4).
           let ty = or_default ty1 ''Variant'' in
           thenR
             (if flags AND DECL_property \<noteq> 0 then
                thenR (get_classData s4)
                  (\<lambda>c. Ok (emit (DeclareProperty ty name (flags AND DECL_constant)
                                   (flags AND DECL_static))
                              (dict_set (members c) name (Some ty) s4)))
              else Ok (emit (DeclareVariable ty name) (s4\<lparr>locals := (locals s4)(name \<mapsto> ty)\<rparr>)))
             (\<lambda>s5. thenR (drive_opt ass s5) (\<lambda>s6. Ok (emit EndStatement s6)))))"

definition reassign :: "grammar \<Rightarrow> cont" where
  "reassign R s =
     thenR (r_expression R s)
       (\<lambda>(exists, exp, s1).
          case expect ''='' s1 of
            (True, s2) \<Rightarrow>
              thenR (r_assignment R None s2)
                (\<lambda>(t, ass, s3).
                   thenR (resume exp s3)
                     (\<lambda>s4. thenR (resume ass s4) (\<lambda>s5. Ok (emit EndStatement s5))))
          | (False, s2) \<Rightarrow> thenR (resume exp s2) (\<lambda>s3. Ok (emit EndStatement s3)))"

definition returnStmt :: "grammar \<Rightarrow> parser \<Rightarrow> error + tyopt \<times> parser" where
  "returnStmt R s =
     thenR (r_expression R s)
       (\<lambda>(ty, exp, s1).
          thenR (out_drive ReturnStmt [exp] s1) (\<lambda>s2. Ok (ty, emit EndStatement s2)))"

definition forStmt :: "grammar \<Rightarrow> parser \<Rightarrow> error + tyopt \<times> parser" where
  "forStmt R s =
     (case consume s of (name, s1) \<Rightarrow>
      thenR (r_expression R (snd (expect ''in'' s1)))
        (\<lambda>(exp_type, exp, s2).
           case exp_type of
             None \<Rightarrow> Err AttributeError
           | Some t \<Rightarrow>
               let iterator_type = remove_brackets t;
                   s3 = s2\<lparr>locals := (locals s2)(name \<mapsto> iterator_type)\<rparr>
               in thenR (out_drive (ForStmt name iterator_type) [exp] s3)
                    (\<lambda>s4. r_Block R False (snd (expect '':'' s4)))))"

definition whileStmt :: "grammar \<Rightarrow> parser \<Rightarrow> error + tyopt \<times> parser" where
  "whileStmt R s =
     thenR (r_boolean R s)
       (\<lambda>(t, cond, s1).
          thenR (out_drive WhileStmt [cond] s1)
            (\<lambda>s2. r_Block R False (snd (expect '':'' s2))))"

definition ifStmt :: "grammar \<Rightarrow> parser \<Rightarrow> error + tyopt \<times> parser" where
  "ifStmt R s =
     thenR (r_boolean R s)
       (\<lambda>(t, cond, s1).
          thenR (out_drive IfStmt [cond] s1)
            (\<lambda>s2. thenR (r_Block R False (snd (expect '':'' s2)))
               (\<lambda>(ty, s3).
                  thenR
                    (whileLoop (fuel R)
                       (\<lambda>(ty, s). expect ''elif'' s)
                       (\<lambda>(ty, s). thenR (r_boolean R s)
                          (\<lambda>(t2, cond2, s1).
                             thenR (out_drive ElifStmt [cond2] s1)
                               (\<lambda>s2. thenR (r_Block R False (snd (expect '':'' s2)))
                                  (\<lambda>(eliftype, s3). Ok (py_or ty eliftype, s3)))))
                       (ty, s3))
                    (\<lambda>(ty, s4).
                       case expect ''else'' s4 of
                         (True, s5) \<Rightarrow>
                           (case expect '':'' s5 of
                              (True, s6) \<Rightarrow>
                                thenR (r_Block R False (emit ElseStmt s6))
                                  (\<lambda>(elsetype, s7). Ok (py_or ty elsetype, s7))
                            | (False, s6) \<Rightarrow> Ok (ty, s6))
                       | (False, s5) \<Rightarrow> Ok (ty, s5)))))"

text \<open>
  \<open>matchStmt\<close>. Modelled from the spec: the backend's \<open>matchStmt\<close> resumes
  \<open>evaluated()\<close> twice, then iterates \<open>cases(addBreak)\<close> and, at each case it is
  given, resumes the pattern and the guard once more.
\<close>

definition matchStmt :: "grammar \<Rightarrow> parser \<Rightarrow> error + tyopt \<times> parser" where
  "matchStmt R s =
     thenR (r_expression R (emit MatchStmt s))
       (\<lambda>(ty, expr, s1).
          thenR (resume expr s1)
            (\<lambda>s2.
               let s3 = snd (expect '':'' s2);
                   s4 = s3\<lparr>level := level s3 + 1\<rparr>;
                   switch_level = level s4;
                   addBreak = match_addBreak s4
               in
               doWhile (fuel R)
                 (\<lambda>(return_type, s). (switch_level \<le> level s, s))
                 (\<lambda>(return_type, s).
                    thenR (endline (fuel R) False s)
                      (\<lambda>s1. case expect ''_'' s1 of (is_default, s2) \<Rightarrow>
                         thenR
                           (if is_default then Ok (None, s2)
                            else thenR (r_expression R s2) (\<lambda>(t, p, s3). Ok (Some p, s3)))
                           (\<lambda>(pattern, s3).
                              thenR
                                (case expect ''when'' s3 of
                                   (True, s4) \<Rightarrow>
                                     thenR (r_boolean R s4) (\<lambda>(t, w, s5). Ok (Some w, s5))
                                 | (False, s4) \<Rightarrow> Ok (None, s4))
                                (\<lambda>(whenExpr, s5).
                                   thenR (drive_opt pattern (snd (expect '':'' s5)))
                                     (\<lambda>s6. thenR (drive_opt whenExpr s6)
                                        (\<lambda>s7. thenR (r_Block R addBreak s7)
                                           (\<lambda>(blockType, s8).
                                              Ok (py_or return_type blockType, s8))))))))
                 None (None, s4)))"

definition statement :: "grammar \<Rightarrow> parser \<Rightarrow> error + tyopt \<times> parser" where
  "statement R s =
     (case expect ''pass'' s of (is_pass, s1) \<Rightarrow>
      if is_pass then Ok (None, s1) else
      case expect ''var'' s1 of (is_var, s2) \<Rightarrow>
      if is_var then thenR (r_declare R None DECL_none s2) (\<lambda>s3. Ok (None, s3)) else
      case expect ''const'' s2 of (is_const, s3) \<Rightarrow>
      if is_const then thenR (r_declare R None DECL_constant s3) (\<lambda>s4. Ok (None, s4)) else
      case expect ''if'' s3 of (is_if, s4) \<Rightarrow>
      if is_if then r_ifStmt R s4 else
      case expect ''while'' s4 of (is_while, s5) \<Rightarrow>
      if is_while then r_whileStmt R s5 else
      case expect ''for'' s5 of (is_for, s6) \<Rightarrow>
      if is_for then r_forStmt R s6 else
      case expect ''match'' s6 of (is_match, s7) \<Rightarrow>
      if is_match then r_matchStmt R s7 else
      case expect ''return'' s7 of (is_return, s8) \<Rightarrow>
      if is_return then r_returnStmt R s8 else
      case expect ''break'' s8 of (is_break, s9) \<Rightarrow>
      if is_break then Ok (None, emit BreakStmt s9) else
      case expect ''continue'' s9 of (is_continue, s10) \<Rightarrow>
      if is_continue then Ok (None, emit ContinueStmt s10)
      else if \<not> match_type [''LINE_END'', ''COMMENT'', ''LONG_STRING''] s10 then
        thenR (r_reassign R s10) (\<lambda>s11. Ok (None, s11))
      else Ok (None, s10))"

definition Block :: "grammar \<Rightarrow> bool \<Rightarrow> parser \<Rightarrow> error + tyopt \<times> parser" where
  "Block R addBreak s =
     (let s1 = s\<lparr>level := level s + 1\<rparr>;
          block_lvl = level s1
      in
      doWhile (fuel R)
        (\<lambda>(return_type, s). (block_lvl \<le> level s, s))
        (\<lambda>(return_type, s).
           thenR (r_statement R s)
             (\<lambda>(res, s2). thenR (endline (fuel R) addBreak s2)
                (\<lambda>s3. Ok (py_or return_type res, s3))))
        None (None, emit UpScope s1))"


subsection \<open>Class members\<close>

definition signal :: "grammar \<Rightarrow> cont" where
  "signal R s =
     (case consume s of (name, s1) \<Rightarrow>
      case expect ''('' s1 of (has_params, s2) \<Rightarrow>
      if has_params then
        thenR
          (doWhile (fuel R)
             (\<lambda>(params, s). case expect '')'' s of (found, s1) \<Rightarrow> (\<not> found, s1))
             (\<lambda>(params, s).
                case consume s of (pName, s1) \<Rightarrow>
                case type_annotation s1 of (pType, s2) \<Rightarrow>
                  Ok (dict_put params pName (case pType of None \<Rightarrow> ''Variant'' | Some t \<Rightarrow> t),
                      snd (expect '','' s2)))
             None ([], s2))
          (\<lambda>(params, s3). Ok (emit (DefineSignal name params) s3))
      else Ok (emit (DefineSignal name []) s2))"

definition enum_p :: "grammar \<Rightarrow> cont" where
  "enum_p R s =
     (case (if match_type [''TEXT''] s then consume s else ([], s)) of (name, s1) \<Rightarrow>
      thenR (consumeUntil (fuel R) ''}'' [] s1)
        (\<lambda>(definition, s2).
           case consume s2 of (closing, s3) \<Rightarrow>
             Ok (emit (EnumDef name (definition @ closing)) s3)))"

text \<open>
  Modelled from the spec: the backend's \<open>define_method\<close> is given the initializers of
  the parameters as producers, and resumes each of them in the order of the dictionary.
\<close>

definition method_p :: "grammar \<Rightarrow> bool \<Rightarrow> cont" where
  "method_p R static s =
     (case consume s of (name, s1) \<Rightarrow>
      thenR
        (doWhile (fuel R)
           (\<lambda>(acc, s). case expect '')'' s of (found, s1) \<Rightarrow> (\<not> found, s1))
           (\<lambda>((params, params_init), s).
              case consume s of (pName, s1) \<Rightarrow>
              case type_annotation s1 of (pType0, s2) \<Rightarrow>
              case expect ''='' s2 of (has_init, s3) \<Rightarrow>
              thenR
                (if has_init then
                   thenR (r_expression R s3)
                     (\<lambda>(initType, pInit, s4).
                        Ok (py_or pType0 initType, dict_put params_init pName pInit, s4))
                 else Ok (pType0, params_init, s3))
                (\<lambda>(pType1, params_init1, s4).
                   Ok ((dict_put params pName (or_default pType1 ''Variant''), params_init1),
                       snd (expect '','' s4))))
           None (([], []), snd (expect ''('' s1)))
        (\<lambda>((params, params_init), s2).
           let s3 = s2\<lparr>locals := fold (\<lambda>(k, v) m. m(k \<mapsto> v)) params (locals s2)\<rparr> in
           case expect ''->'' s3 of (has_return, s4) \<Rightarrow>
           case (if has_return then (case parseType s4 of (t, s5) \<Rightarrow> (Some t, s5))
                 else (None, s4)) of (returnType0, s5) \<Rightarrow>
           thenR (r_Block R False (emit AddLayer (snd (expect '':'' s5))))
             (\<lambda>(blockType, s6).
                let returnType = py_or returnType0 blockType in
                thenR (get_classData s6)
                  (\<lambda>c. out_drive
                          (DefineMethod name params (map fst params_init) returnType static)
                          (map snd params_init)
                          (dict_set (methods c) name returnType s6)))))"

text \<open>
  The annotations of a member. The loop's variables are \<open>onready\<close>, \<open>annotation\<close> and
  \<open>params\<close>; \<open>break\<close> is taken exactly when \<open>onready\<close> becomes true, so the
  condition is not evaluated again after it.
\<close>

definition member_annotations ::
  "grammar \<Rightarrow> parser \<Rightarrow> error + (bool \<times> tyopt \<times> string) \<times> parser" where
  "member_annotations R s =
     whileLoop (fuel R)
       (\<lambda>((onready, annotation, params), s). if onready then (False, s) else expect ''@'' s)
       (\<lambda>((onready, annotation, params), s).
          case expect ''on_ready'' s of (is_onready, s1) \<Rightarrow>
          if is_onready then Ok ((True, annotation, params), s1)
          else
            (case consume s1 of (ann, s2) \<Rightarrow>
             case expect ''('' s2 of (has_params, s3) \<Rightarrow>
             thenR
               (if has_params then
                  thenR (consumeUntil (fuel R) '')'' [] s3)
                    (\<lambda>(text, s4).
                       Ok (filter (\<lambda>c. c \<noteq> CHR 0x22 \<and> c \<noteq> CHR 0x27) text,
                           snd (expect '')'' s4)))
                else Ok (params, s3))
               (\<lambda>(params1, s4).
                  thenR (endline (fuel R) False s4)
                    (\<lambda>s5. Ok ((False, Some ann, params1), s5)))))
       ((False, None, []), s)"

definition member_p :: "grammar \<Rightarrow> bool \<Rightarrow> cont" where
  "member_p R static s =
     thenR (member_annotations R s)
       (\<lambda>((onready, annotation, params), s1).
          case expect ''const'' s1 of (constant, s2) \<Rightarrow>
          case (if constant then (True, s2) else expect ''var'' s2) of (is_decl, s3) \<Rightarrow>
          if is_decl then
            (case consume s3 of (mname, s4) \<Rightarrow>
               r_declare R (Some mname)
                 (DECL_property OR
                    (if constant then DECL_constant
                     else if static then DECL_static
                     else if onready then DECL_onready
                     else DECL_none))
                 (if truthy annotation
                  then emit (Annotation (or_default annotation []) params mname) s4
                  else s4))
          else Ok s3)"

text \<open>
  \<open>nested_class\<close>, up to the loop over the body: the declaration of the class, the
  colon, and the new indentation level.
\<close>

definition nested_class_head :: "parser \<Rightarrow> parser" where
  "nested_class_head s =
     (case consume s of (cname, s1) \<Rightarrow>
      case expect ''extends'' s1 of (has_base, s2) \<Rightarrow>
      case (if has_base then consume s2 else (''Object'', s2)) of (base, s3) \<Rightarrow>
      let s4 = snd (expect '':'' (emit (DefineClass cname base False) s3))
      in s4\<lparr>level := level s4 + 1\<rparr>)"

definition nested_class :: "grammar \<Rightarrow> cont" where
  "nested_class R s =
     (let s1 = nested_class_head s;
          class_lvl = level s1
      in
      thenR
        (doWhile (fuel R)
           (\<lambda>(u, s). (class_lvl \<le> level s, s))
           (\<lambda>(u, s). thenR (r_class_body R s) (\<lambda>s1. Ok (u, s1)))
           None ((), s1))
        (\<lambda>(u, s2). Ok s2))"

definition class_body :: "grammar \<Rightarrow> cont" where
  "class_body R s =
     (case expect ''static'' s of (static, s1) \<Rightarrow>
      thenR
        (case expect ''class'' s1 of (is_class, s2) \<Rightarrow>
         if is_class then r_nested_class R s2 else
         case expect ''enum'' s2 of (is_enum, s3) \<Rightarrow>
         if is_enum then enum_p R s3 else
         case expect ''func'' s3 of (is_func, s4) \<Rightarrow>
         if is_func then r_method R static s4 else
         case expect ''signal'' s4 of (is_signal, s5) \<Rightarrow>
         if is_signal then signal R s5 else r_member R static s5)
        (endline (fuel R) False))"

subsection \<open>The script\<close>

text \<open>
  One iteration of the script-level loop \<open>for i in range(2)\<close>: the class-body loop,
  then either \<open>break\<close> at the end of the input (the result is \<open>True\<close>) or the panic
  system. The panic message names the token object that was current when the loop
  stopped; if that object is still the current one when the message is built, it is
  shown as it is then (\<open>advance\<close> may have rewritten it into \<open>EOF\<close>).
\<close>

definition class_body_loop :: "grammar \<Rightarrow> cont" where
  "class_body_loop R s =
     thenR
       (doWhile (fuel R)
          (\<lambda>(u, s). (True, s))
          (\<lambda>(u, s). thenR (r_class_body R s) (\<lambda>s1. Ok (u, s1)))
          None ((), s))
       (\<lambda>(u, s1). Ok s1)"

definition panic :: "grammar \<Rightarrow> cont" where
  "panic R s =
     thenR (consumeUntil (fuel R) ''LINE_END'' '' '' s)
       (\<lambda>(text, s1).
          thenR (endline (fuel R) False s1)
            (\<lambda>s2. Ok (emit (LineComment
                               (Panic (escape_newlines text)
                                  (if cur_id s2 = cur_id s then current s2 else current s)))
                          s2)))"

definition script_pass :: "grammar \<Rightarrow> parser \<Rightarrow> error + bool \<times> parser" where
  "script_pass R s =
     thenR (class_body_loop R s)
       (\<lambda>s1. if match_type [''EOF''] s1 then Ok (True, s1)
              else thenR (panic R s1) (\<lambda>s2. Ok (False, s2)))"

fun script_loop :: "nat \<Rightarrow> grammar \<Rightarrow> cont" where
  "script_loop 0 R s = Ok s"
| "script_loop (Suc i) R s =
     thenR (script_pass R s) (\<lambda>(stop, s1). if stop then Ok s1 else script_loop i R s1)"

text \<open>
  The start of \<open>transpile\<close>, statement by statement between the calls of \<open>endline\<close>:
  \<open>@tool\<close>, \<open>extends\<close>, then the class name, the class data and the declaration of
  the class.
\<close>

definition script_tool :: "parser \<Rightarrow> bool \<times> parser" where
  "script_tool s =
     (case expect ''@'' s of (at, s1) \<Rightarrow>
      case (if at then expect ''tool'' s1 else (False, s1)) of (tool, s2) \<Rightarrow>
        (tool, s2\<lparr>is_tool := Some tool\<rparr>))"

definition script_base :: "parser \<Rightarrow> string \<times> parser" where
  "script_base s =
     (case expect ''extends'' s of (has_base, s1) \<Rightarrow>
      case (if has_base then consume s1 else (''Object'', s1)) of (base, s2) \<Rightarrow>
        (base, s2\<lparr>base_class := Some base\<rparr>))"

definition script_class :: "bool \<Rightarrow> string \<Rightarrow> parser \<Rightarrow> parser" where
  "script_class tool base s =
     (case expect ''class_name'' s of (has_name, s1) \<Rightarrow>
      case (if has_name then consume s1 else (script_name s1, s1)) of (name, s2) \<Rightarrow>
      case (case godot_types s2 base of
              Some rc \<Rightarrow> (copy rc, s2)
            | None \<Rightarrow> new_ClassData s2) of (cd, s3) \<Rightarrow>
        emit (DefineClass name base tool) (s3\<lparr>class_name := Some name, classData := Some cd\<rparr>))"

definition transpile_header :: "grammar \<Rightarrow> cont" where
  "transpile_header R s =
     thenR (endline (fuel R) False s)
       (\<lambda>s1. case script_tool s1 of (tool, s2) \<Rightarrow>
          thenR (endline (fuel R) False s2)
            (\<lambda>s3. case script_base s3 of (base, s4) \<Rightarrow>
               thenR (endline (fuel R) False s4)
                 (\<lambda>s5. endline (fuel R) False (script_class tool base s5))))"

definition transpile_with :: "grammar \<Rightarrow> cont" where
  "transpile_with R s =
     thenR (transpile_header R s)
       (\<lambda>s1. thenR (script_loop 2 R s1) (\<lambda>s2. Ok (emit EndScript s2)))"

subsection \<open>Closing the recursion\<close>

definition no_fuel :: grammar where
  "no_fuel =
     \<lparr>fuel = 0,
      r_class_body = (\<lambda>s. Err OutOfFuel),
      r_nested_class = (\<lambda>s. Err OutOfFuel),
      r_member = (\<lambda>static s. Err OutOfFuel),
      r_method = (\<lambda>static s. Err OutOfFuel),
      r_Block = (\<lambda>addBreak s. Err OutOfFuel),
      r_statement = (\<lambda>s. Err OutOfFuel),
      r_ifStmt = (\<lambda>s. Err OutOfFuel),
      r_whileStmt = (\<lambda>s. Err OutOfFuel),
      r_forStmt = (\<lambda>s. Err OutOfFuel),
      r_matchStmt = (\<lambda>s. Err OutOfFuel),
      r_returnStmt = (\<lambda>s. Err OutOfFuel),
      r_declare = (\<lambda>name flags s. Err OutOfFuel),
      r_reassign = (\<lambda>s. Err OutOfFuel),
      r_assignment = (\<lambda>onreadyName s. Err OutOfFuel),
      r_expression = (\<lambda>s. Err OutOfFuel),
      r_ternary = (\<lambda>s. Err OutOfFuel),
      r_boolean = (\<lambda>s. Err OutOfFuel),
      r_arithmetic = (\<lambda>s. Err OutOfFuel),
      r_arithmetic_inner = (\<lambda>s. Err OutOfFuel),
      r_value = (\<lambda>s. Err OutOfFuel),
      r_textCode = (\<lambda>s. Err OutOfFuel),
      r_call = (\<lambda>name calling_type s. Err OutOfFuel),
      r_reference = (\<lambda>ty s. Err OutOfFuel),
      r_subscription = (\<lambda>ty s. Err OutOfFuel)\<rparr>"

definition methods_of :: "nat \<Rightarrow> grammar \<Rightarrow> grammar" where
  "methods_of n R =
     \<lparr>fuel = n,
      r_class_body = class_body R,
      r_nested_class = nested_class R,
      r_member = member_p R,
      r_method = method_p R,
      r_Block = Block R,
      r_statement = statement R,
      r_ifStmt = ifStmt R,
      r_whileStmt = whileStmt R,
      r_forStmt = forStmt R,
      r_matchStmt = matchStmt R,
      r_returnStmt = returnStmt R,
      r_declare = declare_p R,
      r_reassign = reassign R,
      r_assignment = assignment R,
      r_expression = expression R,
      r_ternary = ternary R,
      r_boolean = boolean R,
      r_arithmetic = arithmetic R,
      r_arithmetic_inner = arithmetic_inner R,
      r_value = value_p R,
      r_textCode = textCode R,
      r_call = call R,
      r_reference = reference R,
      r_subscription = subscription R\<rparr>"

primrec run :: "nat \<Rightarrow> grammar" where
  "run 0 = no_fuel"
| "run (Suc n) = methods_of (Suc n) (run n)"

text \<open>
  \<open>Parser(filename, text, transpiler)\<close>, given the tokens of the text, the registry
  with its store, and the backend's choice for match cases. On an empty token stream
  the first \<open>advance\<close> finds no \<open>self.current\<close>.
\<close>

definition Parser ::
  "string \<Rightarrow> token list \<Rightarrow> (string \<rightharpoonup> ClassData) \<Rightarrow> (nat \<Rightarrow> dict) \<Rightarrow> nat \<Rightarrow> bool
     \<Rightarrow> error + parser" where
  "Parser filename toks registry store free addBreak =
     (case toks of
        [] \<Rightarrow> Err AttributeError
      | t # ts \<Rightarrow>
          Ok \<lparr>script_name = filename, current = t, cur_id = 0, tokens = ts, level = 0,
              is_tool = None, base_class = None, class_name = None, classData = None,
              locals = Map.empty, godot_types = registry, heap = store, heap_top = free,
              match_addBreak = addBreak, out = []\<rparr>)"

definition transpile :: "nat \<Rightarrow> cont" where
  "transpile n s = transpile_with (run n) s"


section \<open>What the claims speak about\<close>

text \<open>What a caller sees of the first resumption of a producer: the type and the parser.\<close>

definition first_yield :: "error + produced \<Rightarrow> error + tyopt \<times> parser" where
  "first_yield r = (case r of Inl e \<Rightarrow> Inl e | Inr (t, k, s) \<Rightarrow> Inr (t, s))"

text \<open>The type a producer yields (\<open>None\<close> also when it does not return).\<close>

definition yielded_type :: "error + produced \<Rightarrow> tyopt" where
  "yielded_type r = (case r of Inl e \<Rightarrow> None | Inr (t, k, s) \<Rightarrow> t)"


text \<open>An entry of the member table of a class of the registry.\<close>

definition registry_member :: "parser \<Rightarrow> string \<Rightarrow> string \<Rightarrow> tyopt option" where
  "registry_member s cls name =
     (case godot_types s cls of None \<Rightarrow> None | Some rc \<Rightarrow> heap s (members rc) name)"

text \<open>Both resumptions of a producer, one after the other.\<close>

definition resume_twice :: "error + produced \<Rightarrow> error + parser" where
  "resume_twice r = thenR r (\<lambda>(t, k, s). resume k s)"

text \<open>A property of the result of a computation that returns (partial correctness).\<close>

definition post :: "error + 'a \<Rightarrow> ('a \<Rightarrow> bool) \<Rightarrow> bool" where
  "post m Q = (case m of Inl e \<Rightarrow> True | Inr x \<Rightarrow> Q x)"

text \<open>
  The same, for a computation that either runs out of fuel or returns: no exception
  is raised.
\<close>

definition post_fuel :: "error + 'a \<Rightarrow> ('a \<Rightarrow> bool) \<Rightarrow> bool" where
  "post_fuel m Q = (case m of Inl e \<Rightarrow> e = OutOfFuel | Inr x \<Rightarrow> Q x)"

text \<open>The panic comments among the calls the backend received.\<close>

definition is_panic :: "event \<Rightarrow> bool" where
  "is_panic e = (case e of LineComment (Panic text tok) \<Rightarrow> True | _ \<Rightarrow> False)"

definition panics :: "event list \<Rightarrow> event list" where
  "panics es = filter is_panic es"

text \<open>
  What a part of the parser leaves alone. The first resumption of a producer is
  \<open>silent\<close>: it only moves in the token stream. The second resumption is \<open>quiet\<close>: it
  also appends calls to the log of the backend, but no panic comment. A statement or a
  member can also declare locals, write into the store and change the indentation level.
\<close>

definition silent :: "parser \<Rightarrow> parser \<Rightarrow> bool" where
  "silent s s' =
     (level s' = level s \<and> classData s' = classData s \<and> locals s' = locals s \<and>
      godot_types s' = godot_types s \<and> heap s' = heap s \<and> out s' = out s)"

definition quiet :: "parser \<Rightarrow> parser \<Rightarrow> bool" where
  "quiet s s' =
     (level s' = level s \<and> classData s' = classData s \<and> locals s' = locals s \<and>
      godot_types s' = godot_types s \<and> heap s' = heap s \<and>
      (\<exists>es. out s' = out s @ es \<and> panics es = []))"

definition grows :: "parser \<Rightarrow> parser \<Rightarrow> bool" where
  "grows s s' =
     (classData s' = classData s \<and> dom (locals s) \<subseteq> dom (locals s') \<and>
      godot_types s' = godot_types s \<and>
      set (out s) \<subseteq> set (out s') \<and> panics (out s') = panics (out s))"

definition quiet_cont :: "cont \<Rightarrow> bool" where
  "quiet_cont k = (\<forall>s s'. resume k s = Ok s' \<longrightarrow> quiet s s')"

definition producer_ok :: "(parser \<Rightarrow> error + produced) \<Rightarrow> bool" where
  "producer_ok p = (\<forall>s t k s'. p s = Ok (t, k, s') \<longrightarrow> silent s s' \<and> quiet_cont k)"

definition statement_ok :: "(parser \<Rightarrow> error + tyopt \<times> parser) \<Rightarrow> bool" where
  "statement_ok f = (\<forall>s t s'. f s = Ok (t, s') \<longrightarrow> grows s s')"

definition member_ok :: "cont \<Rightarrow> bool" where
  "member_ok f = (\<forall>s s'. f s = Ok s' \<longrightarrow> grows s s')"

definition expressions_ok :: "grammar \<Rightarrow> bool" where
  "expressions_ok R =
     (producer_ok (r_expression R) \<and> producer_ok (r_ternary R) \<and> producer_ok (r_boolean R) \<and>
      producer_ok (r_arithmetic R) \<and> producer_ok (r_arithmetic_inner R) \<and>
      producer_ok (r_value R) \<and> producer_ok (r_textCode R) \<and>
      (\<forall>name ct. producer_ok (r_call R name ct)) \<and>
      (\<forall>ty. producer_ok (r_reference R ty)) \<and>
      (\<forall>ty. producer_ok (r_subscription R ty)) \<and>
      (\<forall>name. producer_ok (r_assignment R name)))"

definition statements_ok :: "grammar \<Rightarrow> bool" where
  "statements_ok R =
     (member_ok (r_class_body R) \<and> member_ok (r_nested_class R) \<and>
      (\<forall>static. member_ok (r_member R static)) \<and>
      (\<forall>static. member_ok (r_method R static)) \<and>
      (\<forall>addBreak. statement_ok (r_Block R addBreak)) \<and>
      statement_ok (r_statement R) \<and> statement_ok (r_ifStmt R) \<and>
      statement_ok (r_whileStmt R) \<and> statement_ok (r_forStmt R) \<and>
      statement_ok (r_matchStmt R) \<and> statement_ok (r_returnStmt R) \<and>
      (\<forall>name flags. member_ok (r_declare R name flags)) \<and> member_ok (r_reassign R))"



section \<open>Example inputs\<close>

definition tkn :: "string \<Rightarrow> string \<Rightarrow> token" where
  "tkn kind text = \<lparr>ttype = kind, tvalue = text\<rparr>"

text \<open>
  A registry with the classes \<open>Object\<close> and \<open>Input\<close> and the global scope, each
  with its own three tables (addresses 0 to 8), all of them empty.
\<close>

definition example_registry :: "string \<rightharpoonup> ClassData" where
  "example_registry =
     [''Object'' \<mapsto> \<lparr>members = 0, methods = 1, constants = 2\<rparr>,
      ''@GlobalScope'' \<mapsto> \<lparr>members = 3, methods = 4, constants = 5\<rparr>,
      ''Input'' \<mapsto> \<lparr>members = 6, methods = 7, constants = 8\<rparr>]"

definition example_script :: "token list \<Rightarrow> error + parser" where
  "example_script toks = Parser ''script'' toks example_registry (\<lambda>a. Map.empty) 9 False"

text \<open>
  The parser of a script that extends \<open>Object\<close>, after the start of the script and
  in front of the given tokens.
\<close>

definition before_tokens :: "token list \<Rightarrow> parser" where
  "before_tokens toks =
     \<lparr>script_name = ''script'',
      current = (case toks of [] \<Rightarrow> EOF_token | t # ts \<Rightarrow> t),
      cur_id = 0, tokens = tl toks, level = 0,
      is_tool = Some False, base_class = Some ''Object'', class_name = Some ''script'',
      classData = Some (copy \<lparr>members = 0, methods = 1, constants = 2\<rparr>),
      locals = Map.empty, godot_types = example_registry, heap = (\<lambda>a. Map.empty),
      heap_top = 9, match_addBreak = False, out = []\<rparr>"


section \<open>Proofs\<close>

lemma thenR_simps [simp]: "thenR (Inr x) f = f x" "thenR (Inl e) f = Inl e"
  by (simp_all add: thenR_def)

lemma thenR_OkE:
  assumes "thenR m f = Ok y"
  obtains x where "m = Ok x" and "f x = Ok y"
  using assms by (cases m) auto

lemma panics_append [simp]: "panics (xs @ ys) = panics xs @ panics ys"
  by (simp add: panics_def)

lemma panics_simps [simp]:
  "panics [] = []" "panics (e # es) = (if is_panic e then e # panics es else panics es)"
  by (simp_all add: panics_def)

lemma silent_refl [simp]: "silent s s"
  by (simp add: silent_def)

lemma quiet_refl [simp]: "quiet s s"
  by (simp add: quiet_def)

lemma grows_refl [simp]: "grows s s"
  by (simp add: grows_def)

lemma silent_advance [simp]: "silent s (advance s)"
  by (simp add: silent_def advance_def split: list.splits)

lemma expect_silent: "expect tok s = (b, s') \<Longrightarrow> silent s s'"
  by (auto simp: expect_def split: if_splits)

lemma snd_expect_silent [simp]: "silent s (snd (expect tok s))"
  by (simp add: expect_def)

lemma advance_fields [simp]:
  "level (advance s) = level s" "classData (advance s) = classData s"
  "locals (advance s) = locals s" "godot_types (advance s) = godot_types s"
  "heap (advance s) = heap s" "out (advance s) = out s"
  by (simp_all add: advance_def split: list.splits)

lemma snd_expect_fields [simp]:
  "level (snd (expect tok s)) = level s" "classData (snd (expect tok s)) = classData s"
  "locals (snd (expect tok s)) = locals s" "godot_types (snd (expect tok s)) = godot_types s"
  "heap (snd (expect tok s)) = heap s" "out (snd (expect tok s)) = out s"
  by (simp_all add: expect_def)

lemma consume_silent: "consume s = (v, s') \<Longrightarrow> silent s s'"
  by (auto simp: consume_def)

lemma consume_if_silent: "consume_if kind s = (v, s') \<Longrightarrow> silent s s'"
  by (auto simp: consume_if_def consume_def split: if_splits)

lemma silent_trans: "silent s s1 \<Longrightarrow> silent s1 s2 \<Longrightarrow> silent s s2"
  by (simp add: silent_def)

lemma parseType_silent: "parseType s = (v, s') \<Longrightarrow> silent s s'"
  unfolding parseType_def
  by (auto split: prod.splits if_splits bool.splits
      dest!: consume_silent expect_silent simp: silent_def)

lemma emit_quiet: "\<not> is_panic e \<Longrightarrow> quiet s (emit e s)"
  by (auto simp: quiet_def emit_def panics_def)

lemma quiet_contD: "quiet_cont k \<Longrightarrow> resume k s = Ok s' \<Longrightarrow> quiet s s'"
  by (simp add: quiet_cont_def)


lemma silent_quiet: "silent s s' \<Longrightarrow> quiet s s'"
  by (simp add: silent_def quiet_def)

lemma quiet_trans: "quiet s s1 \<Longrightarrow> quiet s1 s2 \<Longrightarrow> quiet s s2"
  unfolding quiet_def
proof (elim conjE exE, intro conjI)
  fix es es'
  assume a: "out s1 = out s @ es" "panics es = []" "out s2 = out s1 @ es'" "panics es' = []"
  have "panics (es @ es') = []" using a(2,4) by (simp add: panics_def)
  with a(1,3) show "\<exists>es. out s2 = out s @ es \<and> panics es = []" by simp
qed simp_all

lemma silent_quiet_trans: "silent s s1 \<Longrightarrow> quiet s1 s2 \<Longrightarrow> quiet s s2"
  by (auto simp: quiet_def silent_def)

lemma quiet_silent_trans: "quiet s s1 \<Longrightarrow> silent s1 s2 \<Longrightarrow> quiet s s2"
  by (auto simp: quiet_def silent_def)

lemma quiet_contI: "(\<And>s s'. resume k s = Ok s' \<Longrightarrow> quiet s s') \<Longrightarrow> quiet_cont k"
  by (simp add: quiet_cont_def)

lemma quiet_cont_Ok [simp]: "quiet_cont Ok"
  by (simp add: quiet_cont_def resume_def)

lemma quiet_cont_passthrough [simp]: "quiet_cont (passthrough v)"
  by (auto simp: quiet_cont_def passthrough_def resume_def intro: emit_quiet simp: is_panic_def)

lemma run_all_quiet: "\<forall>k \<in> set ks. quiet_cont k \<Longrightarrow> run_all ks s = Ok s' \<Longrightarrow> quiet s s'"
proof (induction ks arbitrary: s)
  case Nil
  then show ?case by simp
next
  case (Cons k ks)
  from Cons.prems(2) obtain s1 where k: "resume k s = Ok s1" and r: "run_all ks s1 = Ok s'"
    by (auto elim: thenR_OkE)
  from Cons.prems(1) k have "quiet s s1" by (auto dest: quiet_contD)
  moreover from Cons.IH Cons.prems(1) r have "quiet s1 s'" by simp
  ultimately show ?case by (rule quiet_trans)
qed

lemma out_drive_quiet:
  assumes "\<not> is_panic e" and "\<forall>k \<in> set ks. quiet_cont k" and "out_drive e ks s = Ok s'"
  shows "quiet s s'"
proof -
  from assms(3) have "run_all ks (emit e s) = Ok s'" by (simp add: out_drive_def)
  with assms(2) have "quiet (emit e s) s'" by (rule run_all_quiet)
  with emit_quiet[OF assms(1)] show ?thesis by (rule quiet_trans)
qed

lemma out_drive_quiet_cont:
  "\<not> is_panic e \<Longrightarrow> \<forall>k \<in> set ks. quiet_cont k \<Longrightarrow> quiet_cont (out_drive e ks)"
  by (rule quiet_contI) (auto simp: resume_def intro: out_drive_quiet)

lemma whileLoop_rel:
  assumes refl: "\<And>s. I s s" and trans: "\<And>a b c. I a b \<Longrightarrow> I b c \<Longrightarrow> I a c"
    and c: "\<And>a s b s1. condition (a, s) = (b, s1) \<Longrightarrow> I s s1"
    and b: "\<And>a s a' s'. body (a, s) = Ok (a', s') \<Longrightarrow> I s s'"
  shows "whileLoop n condition body (a, s) = Ok (a', s') \<Longrightarrow> I s s'"
proof (induction n arbitrary: a s)
  case 0
  then show ?case by simp
next
  case (Suc n)
  obtain bb s1 where cs: "condition (a, s) = (bb, s1)" by (cases "condition (a, s)")
  have i1: "I s s1" using cs by (rule c)
  show ?case
  proof (cases bb)
    case False
    with Suc.prems cs have "s' = s1" by simp
    with i1 show ?thesis by simp
  next
    case True
    with Suc.prems cs obtain st where bd: "body (a, s1) = Ok st"
      and rest: "whileLoop n condition body st = Ok (a', s')"
      by (auto elim: thenR_OkE)
    obtain a2 s2 where st: "st = (a2, s2)" by (cases st)
    from bd st have "I s1 s2" by (auto intro: b)
    moreover from rest st have "I s2 s'" by (auto intro: Suc.IH)
    ultimately show ?thesis using i1 by (blast intro: trans)
  qed
qed

lemma doWhile_rel:
  assumes refl: "\<And>s. I s s" and trans: "\<And>a b c. I a b \<Longrightarrow> I b c \<Longrightarrow> I a c"
    and c: "\<And>a s b s1. condition (a, s) = (b, s1) \<Longrightarrow> I s s1"
    and b: "\<And>a s a' s'. body (a, s) = Ok (a', s') \<Longrightarrow> I s s'"
  shows "doWhile n condition body l (a, s) = Ok (a', s') \<Longrightarrow> I s s'"
proof (induction n arbitrary: a s l)
  case 0
  then show ?case by simp
next
  case (Suc n)
  show ?case
  proof (cases "Some (cur_id s) = l")
    case True
    with Suc.prems show ?thesis by (simp add: refl)
  next
    case stop: False
    obtain bb s1 where cs: "condition (a, s) = (bb, s1)" by (cases "condition (a, s)")
    have i1: "I s s1" using cs by (rule c)
    show ?thesis
    proof (cases bb)
      case False
      with Suc.prems cs stop have "s' = s1" by simp
      with i1 show ?thesis by simp
    next
      case True
      with Suc.prems cs stop obtain st where bd: "body (a, s1) = Ok st"
        and rest: "doWhile n condition body (Some (cur_id s1)) st = Ok (a', s')"
        by (auto elim: thenR_OkE)
      obtain a2 s2 where st: "st = (a2, s2)" by (cases st)
      from bd st have "I s1 s2" by (auto intro: b)
      moreover from rest st have "I s2 s'" by (auto intro: Suc.IH)
      ultimately show ?thesis using i1 by (blast intro: trans)
    qed
  qed
qed


lemma post_simps [simp]:
  "post (Inr x) Q = Q x" "post (Inl e) Q = True"
  "post (thenR m f) Q = post m (\<lambda>x. post (f x) Q)"
  by (simp_all add: post_def thenR_def split: sum.splits)

lemma post_mono: "post m P \<Longrightarrow> (\<And>x. P x \<Longrightarrow> Q x) \<Longrightarrow> post m Q"
  by (auto simp: post_def split: sum.splits)

lemma postD: "post m Q \<Longrightarrow> m = Ok x \<Longrightarrow> Q x"
  by (simp add: post_def)

lemma postI: "(\<And>x. m = Ok x \<Longrightarrow> Q x) \<Longrightarrow> post m Q"
  by (auto simp: post_def split: sum.splits)

lemma resume_post: "quiet_cont k \<Longrightarrow> post (resume k s) (quiet s)"
  by (auto simp: quiet_cont_def intro: postI)

lemma quiet_cont_postI: "(\<And>s. post (k s) (quiet s)) \<Longrightarrow> quiet_cont k"
  by (auto simp: quiet_cont_def resume_def dest: postD)

lemma producer_ok_post:
  "producer_ok p \<Longrightarrow> post (p s) (\<lambda>(t, k, s'). silent s s' \<and> quiet_cont k)"
  by (auto simp: producer_ok_def intro!: postI)

lemma producer_ok_postI:
  "(\<And>s. post (p s) (\<lambda>(t, k, s'). silent s s' \<and> quiet_cont k)) \<Longrightarrow> producer_ok p"
  unfolding producer_ok_def by (auto dest: postD)

lemma not_panic [simp]:
  "\<not> is_panic Ternary" "\<not> is_panic (Operator op)" "\<not> is_panic (Literal l)"
  "\<not> is_panic CreateArray" "\<not> is_panic CreateDict" "\<not> is_panic Subexpression"
  "\<not> is_panic (Call n k)" "\<not> is_panic (Constructor n k)" "\<not> is_panic This"
  "\<not> is_panic (Singleton n)" "\<not> is_panic (Variable n)" "\<not> is_panic (Reference n)"
  "\<not> is_panic (Constant n)" "\<not> is_panic Subscription" "\<not> is_panic (Assignment a)"
  by (simp_all add: is_panic_def)

lemma emit_fields [simp]:
  "level (emit e s) = level s" "classData (emit e s) = classData s"
  "locals (emit e s) = locals s" "godot_types (emit e s) = godot_types s"
  "heap (emit e s) = heap s" "out (emit e s) = out s @ [e]"
  by (simp_all add: emit_def)

lemmas rel_defs = silent_def quiet_def subset_iff

lemma out_drive_post:
  assumes "\<not> is_panic e" and "\<forall>k \<in> set ks. quiet_cont k"
  shows "post (out_drive e ks s) (quiet s)"
  using assms by (auto intro!: postI dest: out_drive_quiet)

lemma whileLoop_quiet:
  assumes "\<And>a s b s1. condition (a, s) = (b, s1) \<Longrightarrow> quiet s s1"
    and "\<And>a s. post (body (a, s)) (\<lambda>(a', s'). quiet s s')"
  shows "post (whileLoop n condition body (a, s)) (\<lambda>(a', s'). quiet s s')"
proof (rule postI, clarify)
  fix a' s' assume "whileLoop n condition body (a, s) = Ok (a', s')"
  then show "quiet s s'"
  proof (rule whileLoop_rel[where I = quiet, rotated 4])
    fix x t x' t' assume "body (x, t) = Ok (x', t')"
    with assms(2)[where a=x and s=t] show "quiet t t'" by (auto dest: postD)
  qed (auto intro: quiet_trans assms(1))
qed

lemma doWhile_quiet:
  assumes "\<And>a s b s1. condition (a, s) = (b, s1) \<Longrightarrow> quiet s s1"
    and "\<And>a s. post (body (a, s)) (\<lambda>(a', s'). quiet s s')"
  shows "post (doWhile n condition body l (a, s)) (\<lambda>(a', s'). quiet s s')"
proof (rule postI, clarify)
  fix a' s' assume "doWhile n condition body l (a, s) = Ok (a', s')"
  then show "quiet s s'"
  proof (rule doWhile_rel[where I = quiet, rotated 4])
    fix x t x' t' assume "body (x, t) = Ok (x', t')"
    with assms(2)[where a=x and s=t] show "quiet t t'" by (auto dest: postD)
  qed (auto intro: quiet_trans assms(1))
qed

lemma whileLoop_silent:
  assumes "\<And>a s b s1. condition (a, s) = (b, s1) \<Longrightarrow> silent s s1"
    and "\<And>a s. post (body (a, s)) (\<lambda>(a', s'). silent s s')"
  shows "post (whileLoop n condition body (a, s)) (\<lambda>(a', s'). silent s s')"
proof (rule postI, clarify)
  fix a' s' assume "whileLoop n condition body (a, s) = Ok (a', s')"
  then show "silent s s'"
  proof (rule whileLoop_rel[where I = silent, rotated 4])
    fix x t x' t' assume "body (x, t) = Ok (x', t')"
    with assms(2)[where a=x and s=t] show "silent t t'" by (auto dest: postD)
  qed (auto intro: silent_trans assms(1))
qed

lemma doWhile_silent:
  assumes "\<And>a s b s1. condition (a, s) = (b, s1) \<Longrightarrow> silent s s1"
    and "\<And>a s. post (body (a, s)) (\<lambda>(a', s'). silent s s')"
  shows "post (doWhile n condition body l (a, s)) (\<lambda>(a', s'). silent s s')"
proof (rule postI, clarify)
  fix a' s' assume "doWhile n condition body l (a, s) = Ok (a', s')"
  then show "silent s s'"
  proof (rule doWhile_rel[where I = silent, rotated 4])
    fix x t x' t' assume "body (x, t) = Ok (x', t')"
    with assms(2)[where a=x and s=t] show "silent t t'" by (auto dest: postD)
  qed (auto intro: silent_trans assms(1))
qed

lemmas loops_quiet = whileLoop_quiet [THEN post_mono] doWhile_quiet [THEN post_mono]

lemmas loops_silent = whileLoop_silent [THEN post_mono] doWhile_silent [THEN post_mono]

lemma whileLoop_silent_inv:
  assumes J: "J a"
    and c: "\<And>a s b s1. condition (a, s) = (b, s1) \<Longrightarrow> silent s s1"
    and b: "\<And>a s. J a \<Longrightarrow> post (body (a, s)) (\<lambda>(a', s'). silent s s' \<and> J a')"
  shows "post (whileLoop n condition body (a, s)) (\<lambda>(a', s'). silent s s' \<and> J a')"
  using J
proof (induction n arbitrary: a s)
  case 0
  then show ?case by simp
next
  case (Suc n)
  obtain bb s1 where cs: "condition (a, s) = (bb, s1)" by (cases "condition (a, s)")
  have i1: "silent s s1" using cs by (rule c)
  show ?case
  proof (cases bb)
    case False
    with cs i1 Suc.prems show ?thesis by simp
  next
    case True
    have "post (body (a, s1)) (\<lambda>st. post (whileLoop n condition body st)
            (\<lambda>(a', s'). silent s s' \<and> J a'))"
    proof (rule post_mono[OF b[OF Suc.prems, of s1]], clarify)
      fix a2 s2 assume s12: "silent s1 s2" and j2: "J a2"
      show "post (whileLoop n condition body (a2, s2)) (\<lambda>(a', s'). silent s s' \<and> J a')"
        by (rule post_mono[OF Suc.IH[OF j2, of s2]])
          (use i1 s12 in \<open>auto intro: silent_trans\<close>)
    qed
    with cs True show ?thesis by simp
  qed
qed

lemma post_any: "(\<And>x. Q x) \<Longrightarrow> post m Q"
  by (simp add: post_def split: sum.splits)

lemmas post_pure =
  post_any [where m = "textCode_type name singleton s" for name singleton s]
  post_any [where m = "call_type name ct s" for name ct s]
  post_any [where m = "get_classData s" for s]

lemma post_if:
  "(c \<Longrightarrow> post a Q) \<Longrightarrow> (\<not> c \<Longrightarrow> post b Q) \<Longrightarrow> post (if c then a else b) Q"
  by simp

lemma post_case_bool:
  "(b \<Longrightarrow> post x Q) \<Longrightarrow> (\<not> b \<Longrightarrow> post y Q) \<Longrightarrow> post (case b of True \<Rightarrow> x | False \<Rightarrow> y) Q"
  by (cases b) simp_all

lemma post_case_option:
  "(v = None \<Longrightarrow> post x Q) \<Longrightarrow> (\<And>y. v = Some y \<Longrightarrow> post (f y) Q)
     \<Longrightarrow> post (case v of None \<Rightarrow> x | Some y \<Rightarrow> f y) Q"
  by (cases v) simp_all

lemma post_case_expect:
  "(\<And>b s1. silent s s1 \<Longrightarrow> post (f b s1) Q) \<Longrightarrow> post (case expect tok s of (b, s1) \<Rightarrow> f b s1) Q"
  by (auto split: prod.splits dest: expect_silent)

lemma post_case_consume:
  "(\<And>v s1. silent s s1 \<Longrightarrow> post (f v s1) Q) \<Longrightarrow> post (case consume s of (v, s1) \<Rightarrow> f v s1) Q"
  by (auto split: prod.splits dest: consume_silent)

lemma post_case_consume_if:
  "(\<And>v s1. silent s s1 \<Longrightarrow> post (f v s1) Q)
     \<Longrightarrow> post (case consume_if kind s of (v, s1) \<Rightarrow> f v s1) Q"
  by (auto split: prod.splits dest: consume_if_silent)

lemma post_case_parseType:
  "(\<And>v s1. silent s s1 \<Longrightarrow> post (f v s1) Q)
     \<Longrightarrow> post (case parseType s of (v, s1) \<Rightarrow> f v s1) Q"
  by (auto split: prod.splits dest: parseType_silent)

lemmas cursor_dests = expect_silent consume_silent consume_if_silent parseType_silent

lemmas post_struct = post_if post_case_bool post_case_option post_case_expect post_case_consume
  post_case_consume_if post_case_parseType

lemma expr_posts:
  assumes "expressions_ok R"
  shows "post (r_expression R s) (\<lambda>(t, k, s'). silent s s' \<and> quiet_cont k)"
    and "post (r_ternary R s) (\<lambda>(t, k, s'). silent s s' \<and> quiet_cont k)"
    and "post (r_boolean R s) (\<lambda>(t, k, s'). silent s s' \<and> quiet_cont k)"
    and "post (r_arithmetic R s) (\<lambda>(t, k, s'). silent s s' \<and> quiet_cont k)"
    and "post (r_arithmetic_inner R s) (\<lambda>(t, k, s'). silent s s' \<and> quiet_cont k)"
    and "post (r_value R s) (\<lambda>(t, k, s'). silent s s' \<and> quiet_cont k)"
    and "post (r_textCode R s) (\<lambda>(t, k, s'). silent s s' \<and> quiet_cont k)"
    and "post (r_call R name ct s) (\<lambda>(t, k, s'). silent s s' \<and> quiet_cont k)"
    and "post (r_reference R ty s) (\<lambda>(t, k, s'). silent s s' \<and> quiet_cont k)"
    and "post (r_subscription R ty s) (\<lambda>(t, k, s'). silent s s' \<and> quiet_cont k)"
    and "post (r_assignment R oname s) (\<lambda>(t, k, s'). silent s s' \<and> quiet_cont k)"
  using assms by (simp_all add: expressions_ok_def producer_ok_post)

lemma ternary_impl_post:
  assumes R: "expressions_ok R" and v: "quiet_cont valTrue"
  shows "post (ternary_impl R valTrue s) (quiet s)"
  unfolding ternary_impl_def
  apply (insert v)
  apply ((rule conjI | rule quiet_cont_postI
        | rule post_struct
        | rule expr_posts[OF R, THEN post_mono]
        | (rule post_mono[OF resume_post], assumption)
        | rule post_mono[OF out_drive_post]
        | rule post_pure
        | rule loops_quiet
        | clarsimp
        | (clarsimp simp: rel_defs split: prod.splits dest!: cursor_dests; fail))+)
  done

lemma ternary_impl_quiet_cont:
  "expressions_ok R \<Longrightarrow> quiet_cont valTrue \<Longrightarrow> quiet_cont (ternary_impl R valTrue)"
  by (rule quiet_cont_postI) (rule ternary_impl_post)

lemma expression_ok:
  assumes R: "expressions_ok R"
  shows "producer_ok (expression R)"
  unfolding expression_def
  apply (rule producer_ok_postI)
  apply ((rule conjI | rule quiet_cont_postI
        | rule post_struct
        | rule expr_posts[OF R, THEN post_mono]
        | (rule post_mono[OF resume_post], assumption)
        | rule post_mono[OF out_drive_post]
        | rule post_pure
        | rule loops_quiet
        | clarsimp
        | (clarsimp simp: rel_defs split: prod.splits dest!: cursor_dests; fail))+)
  done

lemma assignment_ok:
  assumes R: "expressions_ok R"
  shows "producer_ok (assignment R oname)"
  unfolding assignment_def
  apply (rule producer_ok_postI)
  apply ((rule conjI | rule quiet_cont_postI
        | rule post_struct
        | rule expr_posts[OF R, THEN post_mono]
        | (rule post_mono[OF resume_post], assumption)
        | rule post_mono[OF out_drive_post]
        | rule post_pure
        | rule loops_quiet
        | clarsimp
        | (clarsimp simp: rel_defs split: prod.splits dest!: cursor_dests; fail))+)
  done

lemma ternary_ok:
  assumes R: "expressions_ok R"
  shows "producer_ok (ternary R)"
  unfolding ternary_def
  apply (rule producer_ok_postI)
  apply ((rule conjI | rule quiet_cont_postI
        | rule post_struct
        | rule expr_posts[OF R, THEN post_mono]
        | (rule post_mono[OF resume_post], assumption)
        | rule post_mono[OF out_drive_post]
        | rule post_pure
        | rule loops_quiet
        | clarsimp simp: ternary_impl_quiet_cont[OF R]
        | (clarsimp simp: rel_defs split: prod.splits dest!: cursor_dests; fail))+)
  done

lemma boolean_ok:
  assumes R: "expressions_ok R"
  shows "producer_ok (boolean R)"
  unfolding boolean_def
  apply (rule producer_ok_postI)
  apply ((rule conjI | rule quiet_cont_postI
        | rule post_struct
        | rule expr_posts[OF R, THEN post_mono]
        | (rule post_mono[OF resume_post], assumption)
        | rule post_mono[OF out_drive_post]
        | rule post_pure
        | rule loops_quiet
        | clarsimp
        | (clarsimp simp: rel_defs split: prod.splits dest!: cursor_dests; fail))+)
  done

lemma arithmetic_ok:
  assumes R: "expressions_ok R"
  shows "producer_ok (arithmetic R)"
  unfolding arithmetic_def
  apply (rule producer_ok_postI)
  apply ((rule conjI | rule quiet_cont_postI
        | rule post_struct
        | rule expr_posts[OF R, THEN post_mono]
        | (rule post_mono[OF resume_post], assumption)
        | rule post_mono[OF out_drive_post]
        | rule post_pure
        | rule loops_quiet
        | clarsimp
        | (clarsimp simp: rel_defs split: prod.splits dest!: cursor_dests; fail))+)
  done

lemma arithmetic_inner_ok:
  assumes R: "expressions_ok R"
  shows "producer_ok (arithmetic_inner R)"
  unfolding arithmetic_inner_def
  apply (rule producer_ok_postI)
  apply ((rule conjI | rule quiet_cont_postI
        | rule post_struct
        | rule expr_posts[OF R, THEN post_mono]
        | (rule post_mono[OF resume_post], assumption)
        | rule post_mono[OF out_drive_post]
        | rule post_pure
        | rule loops_quiet
        | clarsimp
        | (clarsimp simp: rel_defs split: prod.splits dest!: cursor_dests; fail))+)
  done

lemma create_array_quiet:
  assumes R: "expressions_ok R"
  shows "quiet_cont (create_array R)"
  unfolding create_array_def
  apply (rule quiet_cont_postI)
  apply ((rule conjI | rule quiet_cont_postI
        | rule post_struct
        | rule expr_posts[OF R, THEN post_mono]
        | (rule post_mono[OF resume_post], assumption)
        | rule post_mono[OF out_drive_post]
        | rule post_pure
        | rule loops_quiet
        | clarsimp
        | (clarsimp simp: rel_defs split: prod.splits dest!: cursor_dests; fail))+)
  done

lemma create_dict_quiet:
  assumes R: "expressions_ok R"
  shows "quiet_cont (create_dict R)"
  unfolding create_dict_def
  apply (rule quiet_cont_postI)
  apply ((rule conjI | rule quiet_cont_postI
        | rule post_struct
        | rule expr_posts[OF R, THEN post_mono]
        | (rule post_mono[OF resume_post], assumption)
        | rule post_mono[OF out_drive_post]
        | rule post_pure
        | rule loops_quiet
        | clarsimp
        | (clarsimp simp: rel_defs split: prod.splits dest!: cursor_dests; fail))+)
  done

lemma value_ok:
  assumes R: "expressions_ok R"
  shows "producer_ok (value_p R)"
  unfolding value_p_def
  apply (rule producer_ok_postI)
  apply ((rule conjI | rule quiet_cont_postI
        | rule post_struct
        | rule expr_posts[OF R, THEN post_mono]
        | (rule post_mono[OF resume_post], assumption)
        | rule post_mono[OF out_drive_post]
        | rule post_pure
        | rule loops_quiet
        | clarsimp simp: create_array_quiet[OF R] create_dict_quiet[OF R]
        | (clarsimp simp: rel_defs split: prod.splits dest!: cursor_dests; fail))+)
  done

lemma textCode_ok:
  assumes R: "expressions_ok R"
  shows "producer_ok (textCode R)"
  unfolding textCode_def Let_def
  apply (rule producer_ok_postI)
  apply ((rule conjI | rule quiet_cont_postI
        | rule post_struct
        | rule expr_posts[OF R, THEN post_mono]
        | (rule post_mono[OF resume_post], assumption)
        | rule post_mono[OF out_drive_post]
        | rule post_pure
        | rule loops_quiet
        | clarsimp
        | (clarsimp simp: rel_defs split: prod.splits dest!: cursor_dests; fail))+)
  done

lemma call_ok:
  assumes R: "expressions_ok R"
  shows "producer_ok (call R name ct)"
  unfolding call_def Let_def
  apply (rule producer_ok_postI)
  apply ((rule conjI
        | rule whileLoop_silent_inv[where J = "\<lambda>ps. \<forall>k \<in> set ps. quiet_cont k", THEN post_mono] | rule quiet_cont_postI
        | rule post_struct
        | rule expr_posts[OF R, THEN post_mono]
        | (rule post_mono[OF resume_post], assumption)
        | rule post_mono[OF out_drive_post]
        | rule post_pure
        | rule loops_silent
        | clarsimp
        | (clarsimp simp: rel_defs split: prod.splits dest!: cursor_dests; fail))+)
  done

lemma reference_ok:
  assumes R: "expressions_ok R"
  shows "producer_ok (reference R ty)"
  unfolding reference_def Let_def
  apply (rule producer_ok_postI)
  apply ((rule conjI | rule quiet_cont_postI
        | rule post_struct
        | rule expr_posts[OF R, THEN post_mono]
        | (rule post_mono[OF resume_post], assumption)
        | rule post_mono[OF out_drive_post]
        | rule post_pure
        | rule loops_quiet
        | clarsimp
        | (clarsimp simp: rel_defs split: prod.splits dest!: cursor_dests; fail))+)
  done

lemma subscription_ok:
  assumes R: "expressions_ok R"
  shows "producer_ok (subscription R ty)"
  unfolding subscription_def Let_def
  apply (rule producer_ok_postI)
  apply ((rule conjI | rule quiet_cont_postI
        | rule post_struct
        | rule expr_posts[OF R, THEN post_mono]
        | (rule post_mono[OF resume_post], assumption)
        | rule post_mono[OF out_drive_post]
        | rule post_pure
        | rule loops_quiet
        | clarsimp
        | (clarsimp simp: rel_defs split: prod.splits dest!: cursor_dests; fail))+)
  done


subsection \<open>Closing the recursion\<close>

lemma methods_of_sel [simp]:
  "fuel (methods_of n R) = n"
  "r_class_body (methods_of n R) = class_body R"
  "r_nested_class (methods_of n R) = nested_class R"
  "r_member (methods_of n R) = member_p R"
  "r_method (methods_of n R) = method_p R"
  "r_Block (methods_of n R) = Block R"
  "r_statement (methods_of n R) = statement R"
  "r_ifStmt (methods_of n R) = ifStmt R"
  "r_whileStmt (methods_of n R) = whileStmt R"
  "r_forStmt (methods_of n R) = forStmt R"
  "r_matchStmt (methods_of n R) = matchStmt R"
  "r_returnStmt (methods_of n R) = returnStmt R"
  "r_declare (methods_of n R) = declare_p R"
  "r_reassign (methods_of n R) = reassign R"
  "r_assignment (methods_of n R) = assignment R"
  "r_expression (methods_of n R) = expression R"
  "r_ternary (methods_of n R) = ternary R"
  "r_boolean (methods_of n R) = boolean R"
  "r_arithmetic (methods_of n R) = arithmetic R"
  "r_arithmetic_inner (methods_of n R) = arithmetic_inner R"
  "r_value (methods_of n R) = value_p R"
  "r_textCode (methods_of n R) = textCode R"
  "r_call (methods_of n R) = call R"
  "r_reference (methods_of n R) = reference R"
  "r_subscription (methods_of n R) = subscription R"
  by (simp_all add: methods_of_def)

lemma expressions_ok_no_fuel: "expressions_ok no_fuel"
  by (simp add: expressions_ok_def no_fuel_def producer_ok_def)

lemma expressions_ok_methods_of: "expressions_ok R \<Longrightarrow> expressions_ok (methods_of n R)"
  unfolding expressions_ok_def [of "methods_of n R"] methods_of_sel
  by (simp add: expression_ok ternary_ok boolean_ok arithmetic_ok arithmetic_inner_ok
      value_ok textCode_ok call_ok reference_ok subscription_ok assignment_ok)

lemma expressions_ok_run: "expressions_ok (run n)"
  by (induction n) (simp_all add: expressions_ok_no_fuel expressions_ok_methods_of)

subsection \<open>Evaluating the parser on a script\<close>

lemma run_numeral: "run (numeral k) = methods_of (numeral k) (run (pred_numeral k))"
  by (simp add: numeral_eq_Suc)

lemma doWhile_numeral:
  "doWhile (numeral k) condition body last_tok st =
     (if Some (cur_id (snd st)) = last_tok then Ok st
      else
        (case condition st of
           (False, s1) \<Rightarrow> Ok (fst st, s1)
         | (True, s1) \<Rightarrow>
             thenR (body (fst st, s1))
               (doWhile (pred_numeral k) condition body (Some (cur_id s1)))))"
  by (simp add: numeral_eq_Suc)

lemma whileLoop_numeral:
  "whileLoop (numeral k) condition body st =
     (case condition st of
        (False, s1) \<Rightarrow> Ok (fst st, s1)
      | (True, s1) \<Rightarrow> thenR (body (fst st, s1)) (whileLoop (pred_numeral k) condition body))"
  by (simp add: numeral_eq_Suc)

lemma script_loop_numeral:
  "script_loop (numeral k) R s =
     thenR (script_pass R s)
       (\<lambda>(stop, s1). if stop then Ok s1 else script_loop (pred_numeral k) R s1)"
  by (simp add: numeral_eq_Suc)

lemma thenR_cong: "m = m' \<Longrightarrow> thenR m f = thenR m' f"
  by simp

lemmas util_defs = truthy_def py_or_def EOF_token_def advance_def match_type_def match_value_def
  expect_def consume_def parseType_def join_def consumeUntil_def is_space_def is_digit_def
  strip_def py_int_def digitpart_def number_part_def exponent_ok_def lower_def py_float_ok_def escape_newlines_def or_default_def dict_get_def dict_has_def dict_set_def
  get_classData_def new_ClassData_def copy_def emit_def resume_def out_drive_def drive_opt_def
  emitComments_def endline_body_def endline_def consume_if_def passthrough_def
  type_annotation_def DECL_none_def DECL_static_def DECL_constant_def DECL_property_def
  DECL_onready_def

lemmas grammar_defs = assignment_def expression_def ternary_impl_def ternary_def boolean_def
  arithmetic_def arithmetic_inner_def create_array_def create_dict_def value_p_def
  textCode_type_def textCode_def call_type_def call_def reference_def subscription_def
  declare_p_def reassign_def returnStmt_def forStmt_def whileStmt_def ifStmt_def matchStmt_def
  statement_def Block_def signal_def enum_p_def method_p_def member_annotations_def member_p_def
  nested_class_head_def nested_class_def class_body_def class_body_loop_def panic_def
  script_pass_def script_tool_def script_base_def script_class_def transpile_header_def
  transpile_with_def transpile_def Parser_def

lemmas example_defs = tkn_def example_registry_def example_script_def before_tokens_def

lemmas eval_simps = util_defs grammar_defs example_defs no_fuel_def run_numeral doWhile_numeral
  whileLoop_numeral script_loop_numeral Let_def

subsection \<open>What statements and members leave alone\<close>

lemma grows_trans: "grows s s1 \<Longrightarrow> grows s1 s2 \<Longrightarrow> grows s s2"
  by (auto simp: grows_def)

lemma quiet_grows: "quiet s s' \<Longrightarrow> grows s s'"
  by (auto simp: quiet_def grows_def)

lemma silent_grows: "silent s s' \<Longrightarrow> grows s s'"
  by (simp add: silent_def grows_def)

lemma type_annotation_silent: "type_annotation s = (v, s') \<Longrightarrow> silent s s'"
  unfolding type_annotation_def
  by (auto split: prod.splits if_splits bool.splits
      dest!: expect_silent parseType_silent simp: silent_def)

lemma post_case_type_annotation:
  "(\<And>v s1. silent s s1 \<Longrightarrow> post (f v s1) Q)
     \<Longrightarrow> post (case type_annotation s of (v, s1) \<Rightarrow> f v s1) Q"
  by (auto split: prod.splits dest: type_annotation_silent)

lemma down_scopes_fields [simp]:
  "classData (down_scopes b i n s) = classData s"
  "locals (down_scopes b i n s) = locals s"
  "godot_types (down_scopes b i n s) = godot_types s"
  "heap (down_scopes b i n s) = heap s"
  "panics (out (down_scopes b i n s)) = panics (out s)"
  by (induction n arbitrary: s i; simp add: Let_def is_panic_def)+

lemma down_scopes_out: "x \<in> set (out s) \<Longrightarrow> x \<in> set (out (down_scopes b i n s))"
  by (induction n arbitrary: s i) (simp_all add: Let_def)

lemma emitComments_fields [simp]:
  "classData (emitComments c s) = classData s"
  "locals (emitComments c s) = locals s"
  "godot_types (emitComments c s) = godot_types s"
  "heap (emitComments c s) = heap s"
  "level (emitComments c s) = level s"
  by (simp_all add: emitComments_def split: option.splits)

lemma emitComments_out:
  "out (emitComments c s) = out s @ (case c of None \<Rightarrow> [] | Some e \<Rightarrow> [e])"
  by (simp add: emitComments_def split: option.splits)

lemma whileLoop_grows:
  assumes "\<And>a s b s1. condition (a, s) = (b, s1) \<Longrightarrow> grows s s1"
    and "\<And>a s. post (body (a, s)) (\<lambda>(a', s'). grows s s')"
  shows "post (whileLoop n condition body (a, s)) (\<lambda>(a', s'). grows s s')"
proof (rule postI, clarify)
  fix a' s' assume "whileLoop n condition body (a, s) = Ok (a', s')"
  then show "grows s s'"
  proof (rule whileLoop_rel[where I = grows, rotated 4])
    fix x t x' t' assume "body (x, t) = Ok (x', t')"
    with assms(2)[where a=x and s=t] show "grows t t'" by (auto dest: postD)
  qed (auto intro: grows_trans assms(1))
qed

lemma doWhile_grows:
  assumes "\<And>a s b s1. condition (a, s) = (b, s1) \<Longrightarrow> grows s s1"
    and "\<And>a s. post (body (a, s)) (\<lambda>(a', s'). grows s s')"
  shows "post (doWhile n condition body l (a, s)) (\<lambda>(a', s'). grows s s')"
proof (rule postI, clarify)
  fix a' s' assume "doWhile n condition body l (a, s) = Ok (a', s')"
  then show "grows s s'"
  proof (rule doWhile_rel[where I = grows, rotated 4])
    fix x t x' t' assume "body (x, t) = Ok (x', t')"
    with assms(2)[where a=x and s=t] show "grows t t'" by (auto dest: postD)
  qed (auto intro: grows_trans assms(1))
qed

lemmas loops_grows = whileLoop_grows [THEN post_mono] doWhile_grows [THEN post_mono]

lemma drive_opt_post:
  "\<forall>c. k = Some c \<longrightarrow> quiet_cont c \<Longrightarrow> post (drive_opt k s) (quiet s)"
  by (cases k) (auto simp: drive_opt_def intro: resume_post)

lemma endline_body_post:
  "post (endline_body addBreak ((lvl, j), s)) (\<lambda>(a', s'). grows s s')"
  unfolding endline_body_def Let_def
  apply ((rule conjI | rule post_struct
        | clarsimp
        | (clarsimp simp: grows_def rel_defs is_panic_def emitComments_out down_scopes_out
              split: prod.splits option.splits dest!: cursor_dests; fail))+)
  done

lemma endline_post: "post (endline n addBreak s) (grows s)"
  unfolding endline_def
  apply simp
  apply (rule doWhile_grows [THEN post_mono])
    apply (clarsimp split: prod.splits)
   apply (clarsimp, rule post_mono [OF endline_body_post], clarsimp)
  apply (clarsimp simp: grows_def rel_defs is_panic_def)
  done

lemma consumeUntil_post: "post (consumeUntil n tk sep s) (\<lambda>(v, s'). silent s s')"
  unfolding consumeUntil_def
  apply simp
  apply (rule doWhile_silent [THEN post_mono])
    apply (clarsimp split: prod.splits)
   apply (clarsimp split: prod.splits dest!: consume_silent)
  apply clarsimp
  done

lemma doWhile_silent_inv:
  assumes J: "J a"
    and c: "\<And>a s b s1. condition (a, s) = (b, s1) \<Longrightarrow> silent s s1"
    and b: "\<And>a s. J a \<Longrightarrow> post (body (a, s)) (\<lambda>(a', s'). silent s s' \<and> J a')"
  shows "post (doWhile n condition body l (a, s)) (\<lambda>(a', s'). silent s s' \<and> J a')"
  using J
proof (induction n arbitrary: a s l)
  case 0
  then show ?case by simp
next
  case (Suc n)
  show ?case
  proof (cases "Some (cur_id s) = l")
    case True
    with Suc.prems show ?thesis by simp
  next
    case stop: False
    obtain bb s1 where cs: "condition (a, s) = (bb, s1)" by (cases "condition (a, s)")
    have i1: "silent s s1" using cs by (rule c)
    show ?thesis
    proof (cases bb)
      case False
      with cs i1 Suc.prems stop show ?thesis by simp
    next
      case True
      have "post (body (a, s1))
              (\<lambda>st. post (doWhile n condition body (Some (cur_id s1)) st)
                (\<lambda>(a', s'). silent s s' \<and> J a'))"
      proof (rule post_mono[OF b[OF Suc.prems, of s1]], clarify)
        fix a2 s2 assume s12: "silent s1 s2" and j2: "J a2"
        show "post (doWhile n condition body (Some (cur_id s1)) (a2, s2))
                (\<lambda>(a', s'). silent s s' \<and> J a')"
          by (rule post_mono[OF Suc.IH[OF j2, of "Some (cur_id s1)" s2]])
            (use i1 s12 in \<open>auto intro: silent_trans\<close>)
      qed
      with cs True stop show ?thesis by simp
    qed
  qed
qed

lemma dom_fold_upd: "x \<in> dom m \<Longrightarrow> x \<in> dom (fold (\<lambda>(k, v) m. m(k \<mapsto> v)) ps m)"
  by (induction ps arbitrary: m) (auto split: prod.splits)

lemma quiet_cont_dict_put:
  "\<forall>k \<in> set (map snd ps). quiet_cont k \<Longrightarrow> quiet_cont c
     \<Longrightarrow> \<forall>k \<in> set (map snd (dict_put ps n c)). quiet_cont k"
  by (induction ps) auto

lemmas post_struct2 = post_struct post_case_type_annotation

lemma stmt_posts:
  assumes "statements_ok R"
  shows "post (r_class_body R s) (grows s)"
    and "post (r_nested_class R s) (grows s)"
    and "post (r_member R static s) (grows s)"
    and "post (r_method R static s) (grows s)"
    and "post (r_Block R addBreak s) (\<lambda>(t, s'). grows s s')"
    and "post (r_statement R s) (\<lambda>(t, s'). grows s s')"
    and "post (r_ifStmt R s) (\<lambda>(t, s'). grows s s')"
    and "post (r_whileStmt R s) (\<lambda>(t, s'). grows s s')"
    and "post (r_forStmt R s) (\<lambda>(t, s'). grows s s')"
    and "post (r_matchStmt R s) (\<lambda>(t, s'). grows s s')"
    and "post (r_returnStmt R s) (\<lambda>(t, s'). grows s s')"
    and "post (r_declare R name flags s) (grows s)"
    and "post (r_reassign R s) (grows s)"
  using assms
  by (auto simp: statements_ok_def statement_ok_def member_ok_def intro!: postI)

lemma statement_okI: "(\<And>s. post (f s) (\<lambda>(t, s'). grows s s')) \<Longrightarrow> statement_ok f"
  unfolding statement_ok_def by (auto dest: postD)

lemma member_okI: "(\<And>s. post (f s) (grows s)) \<Longrightarrow> member_ok f"
  unfolding member_ok_def by (auto dest: postD)

lemma declare_ok:
  assumes R: "expressions_ok R" and S: "statements_ok R"
  shows "member_ok (declare_p R name flags)"
  unfolding declare_p_def Let_def dict_set_def
  apply (rule member_okI)
  apply ((rule conjI | rule quiet_cont_postI
        | rule post_struct2
        | rule expr_posts[OF R, THEN post_mono]
        | rule stmt_posts[OF S, THEN post_mono]
        | (rule post_mono[OF resume_post], assumption)
        | rule post_mono[OF out_drive_post]
        | rule post_mono[OF drive_opt_post]
        | rule post_mono[OF endline_post]
        | rule post_mono[OF consumeUntil_post]
        | rule post_pure
        | rule loops_grows
        | clarsimp
        | (clarsimp simp: grows_def rel_defs is_panic_def split: prod.splits if_splits
              dest!: cursor_dests; fail))+)
  done

lemma reassign_ok:
  assumes R: "expressions_ok R" and S: "statements_ok R"
  shows "member_ok (reassign R)"
  unfolding reassign_def
  apply (rule member_okI)
  apply ((rule conjI | rule quiet_cont_postI
        | rule post_struct2
        | rule expr_posts[OF R, THEN post_mono]
        | rule stmt_posts[OF S, THEN post_mono]
        | (rule post_mono[OF resume_post], assumption)
        | rule post_mono[OF out_drive_post]
        | rule post_mono[OF drive_opt_post]
        | rule post_mono[OF endline_post]
        | rule post_mono[OF consumeUntil_post]
        | rule post_pure
        | rule loops_grows
        | clarsimp
        | (clarsimp simp: grows_def rel_defs is_panic_def split: prod.splits if_splits
              dest!: cursor_dests; fail))+)
  done

lemma returnStmt_ok:
  assumes R: "expressions_ok R" and S: "statements_ok R"
  shows "statement_ok (returnStmt R)"
  unfolding returnStmt_def
  apply (rule statement_okI)
  apply ((rule conjI | rule quiet_cont_postI
        | rule post_struct2
        | rule expr_posts[OF R, THEN post_mono]
        | rule stmt_posts[OF S, THEN post_mono]
        | (rule post_mono[OF resume_post], assumption)
        | rule post_mono[OF out_drive_post]
        | rule post_mono[OF drive_opt_post]
        | rule post_mono[OF endline_post]
        | rule post_mono[OF consumeUntil_post]
        | rule post_pure
        | rule loops_grows
        | clarsimp
        | (clarsimp simp: grows_def rel_defs is_panic_def split: prod.splits if_splits
              dest!: cursor_dests; fail))+)
  done

lemma forStmt_ok:
  assumes R: "expressions_ok R" and S: "statements_ok R"
  shows "statement_ok (forStmt R)"
  unfolding forStmt_def Let_def
  apply (rule statement_okI)
  apply ((rule conjI | rule quiet_cont_postI
        | rule post_struct2
        | rule expr_posts[OF R, THEN post_mono]
        | rule stmt_posts[OF S, THEN post_mono]
        | (rule post_mono[OF resume_post], assumption)
        | rule post_mono[OF out_drive_post]
        | rule post_mono[OF drive_opt_post]
        | rule post_mono[OF endline_post]
        | rule post_mono[OF consumeUntil_post]
        | rule post_pure
        | rule loops_grows
        | clarsimp
        | (clarsimp simp: grows_def rel_defs is_panic_def split: prod.splits if_splits
              dest!: cursor_dests; fail))+)
  done

lemma whileStmt_ok:
  assumes R: "expressions_ok R" and S: "statements_ok R"
  shows "statement_ok (whileStmt R)"
  unfolding whileStmt_def
  apply (rule statement_okI)
  apply ((rule conjI | rule quiet_cont_postI
        | rule post_struct2
        | rule expr_posts[OF R, THEN post_mono]
        | rule stmt_posts[OF S, THEN post_mono]
        | (rule post_mono[OF resume_post], assumption)
        | rule post_mono[OF out_drive_post]
        | rule post_mono[OF drive_opt_post]
        | rule post_mono[OF endline_post]
        | rule post_mono[OF consumeUntil_post]
        | rule post_pure
        | rule loops_grows
        | clarsimp
        | (clarsimp simp: grows_def rel_defs is_panic_def split: prod.splits if_splits
              dest!: cursor_dests; fail))+)
  done

lemma ifStmt_ok:
  assumes R: "expressions_ok R" and S: "statements_ok R"
  shows "statement_ok (ifStmt R)"
  unfolding ifStmt_def
  apply (rule statement_okI)
  apply ((rule conjI | rule quiet_cont_postI
        | rule post_struct2
        | rule expr_posts[OF R, THEN post_mono]
        | rule stmt_posts[OF S, THEN post_mono]
        | (rule post_mono[OF resume_post], assumption)
        | rule post_mono[OF out_drive_post]
        | rule post_mono[OF drive_opt_post]
        | rule post_mono[OF endline_post]
        | rule post_mono[OF consumeUntil_post]
        | rule post_pure
        | rule loops_grows
        | clarsimp
        | (clarsimp simp: grows_def rel_defs is_panic_def split: prod.splits if_splits
              dest!: cursor_dests; fail))+)
  done

lemma matchStmt_ok:
  assumes R: "expressions_ok R" and S: "statements_ok R"
  shows "statement_ok (matchStmt R)"
  unfolding matchStmt_def Let_def
  apply (rule statement_okI)
  apply ((rule conjI | rule quiet_cont_postI
        | rule post_struct2
        | rule expr_posts[OF R, THEN post_mono]
        | rule stmt_posts[OF S, THEN post_mono]
        | (rule post_mono[OF resume_post], assumption)
        | rule post_mono[OF out_drive_post]
        | rule post_mono[OF drive_opt_post]
        | rule post_mono[OF endline_post]
        | rule post_mono[OF consumeUntil_post]
        | rule post_pure
        | rule loops_grows
        | clarsimp
        | (clarsimp simp: grows_def rel_defs is_panic_def split: prod.splits if_splits
              dest!: cursor_dests; fail))+)
  done

lemma statement_ok:
  assumes R: "expressions_ok R" and S: "statements_ok R"
  shows "statement_ok (statement R)"
  unfolding statement_def
  apply (rule statement_okI)
  apply ((rule conjI | rule quiet_cont_postI
        | rule post_struct2
        | rule expr_posts[OF R, THEN post_mono]
        | rule stmt_posts[OF S, THEN post_mono]
        | (rule post_mono[OF resume_post], assumption)
        | rule post_mono[OF out_drive_post]
        | rule post_mono[OF drive_opt_post]
        | rule post_mono[OF endline_post]
        | rule post_mono[OF consumeUntil_post]
        | rule post_pure
        | rule loops_grows
        | clarsimp
        | (clarsimp simp: grows_def rel_defs is_panic_def split: prod.splits if_splits
              dest!: cursor_dests; fail))+)
  done

lemma Block_ok:
  assumes R: "expressions_ok R" and S: "statements_ok R"
  shows "statement_ok (Block R addBreak)"
  unfolding Block_def Let_def
  apply (rule statement_okI)
  apply ((rule conjI | rule quiet_cont_postI
        | rule post_struct2
        | rule expr_posts[OF R, THEN post_mono]
        | rule stmt_posts[OF S, THEN post_mono]
        | (rule post_mono[OF resume_post], assumption)
        | rule post_mono[OF out_drive_post]
        | rule post_mono[OF drive_opt_post]
        | rule post_mono[OF endline_post]
        | rule post_mono[OF consumeUntil_post]
        | rule post_pure
        | rule loops_grows
        | clarsimp
        | (clarsimp simp: grows_def rel_defs is_panic_def split: prod.splits if_splits
              dest!: cursor_dests; fail))+)
  done

lemma signal_post:
  assumes R: "expressions_ok R" and S: "statements_ok R"
  shows "post (signal R s) (grows s)"
  unfolding signal_def
  apply ((rule conjI | rule quiet_cont_postI
        | rule post_struct2
        | rule expr_posts[OF R, THEN post_mono]
        | rule stmt_posts[OF S, THEN post_mono]
        | (rule post_mono[OF resume_post], assumption)
        | rule post_mono[OF out_drive_post]
        | rule post_mono[OF drive_opt_post]
        | rule post_mono[OF endline_post]
        | rule post_mono[OF consumeUntil_post]
        | rule post_pure
        | rule loops_grows
        | clarsimp
        | (clarsimp simp: grows_def rel_defs is_panic_def split: prod.splits if_splits
              dest!: cursor_dests; fail))+)
  done

lemma enum_post:
  assumes R: "expressions_ok R" and S: "statements_ok R"
  shows "post (enum_p R s) (grows s)"
  unfolding enum_p_def
  apply ((rule conjI | rule quiet_cont_postI
        | rule post_struct2
        | rule expr_posts[OF R, THEN post_mono]
        | rule stmt_posts[OF S, THEN post_mono]
        | (rule post_mono[OF resume_post], assumption)
        | rule post_mono[OF out_drive_post]
        | rule post_mono[OF drive_opt_post]
        | rule post_mono[OF endline_post]
        | rule post_mono[OF consumeUntil_post]
        | rule post_pure
        | rule loops_grows
        | clarsimp
        | (clarsimp simp: grows_def rel_defs is_panic_def split: prod.splits if_splits
              dest!: cursor_dests; fail))+)
  done

lemma member_annotations_post:
  assumes R: "expressions_ok R" and S: "statements_ok R"
  shows "post (member_annotations R s) (\<lambda>(a, s'). grows s s')"
  unfolding member_annotations_def
  apply ((rule conjI | rule quiet_cont_postI
        | rule post_struct2
        | rule expr_posts[OF R, THEN post_mono]
        | rule stmt_posts[OF S, THEN post_mono]
        | (rule post_mono[OF resume_post], assumption)
        | rule post_mono[OF out_drive_post]
        | rule post_mono[OF drive_opt_post]
        | rule post_mono[OF endline_post]
        | rule post_mono[OF consumeUntil_post]
        | rule post_pure
        | rule loops_grows
        | clarsimp
        | (clarsimp simp: grows_def rel_defs is_panic_def split: prod.splits if_splits
              dest!: cursor_dests; fail))+)
  done

lemma member_ok:
  assumes R: "expressions_ok R" and S: "statements_ok R"
  shows "member_ok (member_p R static)"
  unfolding member_p_def
  apply (rule member_okI)
  apply ((rule conjI | rule quiet_cont_postI
        | rule post_struct
        | rule post_mono[OF member_annotations_post[OF R S]]
        | rule expr_posts[OF R, THEN post_mono]
        | rule stmt_posts[OF S, THEN post_mono]
        | (rule post_mono[OF resume_post], assumption)
        | rule post_mono[OF out_drive_post]
        | rule post_mono[OF drive_opt_post]
        | rule post_mono[OF endline_post]
        | rule post_mono[OF consumeUntil_post]
        | rule post_pure
        | rule loops_grows
        | clarsimp
        | (clarsimp simp: grows_def rel_defs is_panic_def split: prod.splits if_splits
              dest!: cursor_dests; fail))+)
  done

lemma nested_class_head_grows: "grows s (nested_class_head s)"
  unfolding nested_class_head_def Let_def
  by (auto simp: grows_def rel_defs is_panic_def split: prod.splits if_splits
      dest!: cursor_dests)

lemma nested_class_ok:
  assumes R: "expressions_ok R" and S: "statements_ok R"
  shows "member_ok (nested_class R)"
  unfolding nested_class_def Let_def
  apply (rule member_okI)
  apply (insert nested_class_head_grows)
  apply ((rule conjI | rule quiet_cont_postI
        | rule post_struct2
        | rule expr_posts[OF R, THEN post_mono]
        | rule stmt_posts[OF S, THEN post_mono]
        | (rule post_mono[OF resume_post], assumption)
        | rule post_mono[OF out_drive_post]
        | rule post_mono[OF drive_opt_post]
        | rule post_mono[OF endline_post]
        | rule post_mono[OF consumeUntil_post]
        | rule post_pure
        | rule loops_grows
        | clarsimp
        | (clarsimp simp: grows_def rel_defs is_panic_def split: prod.splits if_splits
              dest!: cursor_dests; fail))+)
  done

lemma class_body_ok:
  assumes R: "expressions_ok R" and S: "statements_ok R"
  shows "member_ok (class_body R)"
  unfolding class_body_def
  apply (rule member_okI)
  apply ((rule conjI | rule quiet_cont_postI
        | rule post_struct
        | rule post_mono[OF signal_post[OF R S]] | rule post_mono[OF enum_post[OF R S]]
        | rule expr_posts[OF R, THEN post_mono]
        | rule stmt_posts[OF S, THEN post_mono]
        | (rule post_mono[OF resume_post], assumption)
        | rule post_mono[OF out_drive_post]
        | rule post_mono[OF drive_opt_post]
        | rule post_mono[OF endline_post]
        | rule post_mono[OF consumeUntil_post]
        | rule post_pure
        | rule loops_grows
        | clarsimp
        | (clarsimp simp: grows_def rel_defs is_panic_def split: prod.splits if_splits
              dest!: cursor_dests; fail))+)
  done

lemma list_all_dict_put: "list_all P ps \<Longrightarrow> P (n, c) \<Longrightarrow> list_all P (dict_put ps n c)"
  by (induction ps) auto

lemma out_drive_inits_post:
  "list_all (\<lambda>p. quiet_cont (snd p)) ps \<Longrightarrow> \<not> is_panic e
     \<Longrightarrow> post (out_drive e (map snd ps) s) (quiet s)"
  by (rule out_drive_post) (auto simp: list_all_iff)

lemma method_ok:
  assumes R: "expressions_ok R" and S: "statements_ok R"
  shows "member_ok (method_p R static)"
  unfolding method_p_def Let_def dict_set_def
  apply (rule member_okI)
  apply (((rule post_mono[OF out_drive_inits_post], assumption) | rule conjI | rule quiet_cont_postI
        | rule post_struct2
        | rule doWhile_silent_inv[where J = "\<lambda>(ps, inits). list_all (\<lambda>p. quiet_cont (snd p)) inits", THEN post_mono]
        | rule expr_posts[OF R, THEN post_mono]
        | rule stmt_posts[OF S, THEN post_mono]
        | (rule post_mono[OF resume_post], assumption)
        | rule post_mono[OF out_drive_post]
        | rule post_mono[OF drive_opt_post]
        | rule post_mono[OF endline_post]
        | rule post_mono[OF consumeUntil_post]
        | rule post_pure
        | rule loops_grows
        | clarsimp simp: list_all_dict_put
        | clarsimp split: prod.splits dest!: cursor_dests
        | (clarsimp simp: grows_def rel_defs is_panic_def dom_fold_upd list_all_dict_put list_all_iff
              split: prod.splits if_splits
              dest!: cursor_dests; fail))+)
  done

lemma statements_ok_no_fuel: "statements_ok no_fuel"
  by (simp add: statements_ok_def no_fuel_def statement_ok_def member_ok_def)

lemma statements_ok_methods_of:
  "expressions_ok R \<Longrightarrow> statements_ok R \<Longrightarrow> statements_ok (methods_of n R)"
  unfolding statements_ok_def [of "methods_of n R"] methods_of_sel
  by (simp add: class_body_ok nested_class_ok member_ok method_ok Block_ok statement_ok ifStmt_ok
      whileStmt_ok forStmt_ok matchStmt_ok returnStmt_ok declare_ok reassign_ok)

lemma statements_ok_run: "statements_ok (run n)"
  by (induction n)
    (simp_all add: statements_ok_no_fuel statements_ok_methods_of expressions_ok_run)

subsection \<open>A call whose argument loop never ends\<close>

lemma post_fuel_simps [simp]:
  "post_fuel (Ok x) Q = Q x" "post_fuel (Err e) Q = (e = OutOfFuel)"
  by (simp_all add: post_fuel_def)



lemma post_fuel_never: "post_fuel m (\<lambda>x. False) = (m = Err OutOfFuel)"
  by (cases m) simp_all

lemma fuel_run [simp]: "fuel (run n) = n"
  by (cases n) (simp_all add: no_fuel_def)













subsection \<open>The two phases of the expression producers\<close>





text \<open>
  The calls of a producer that is never resumed a second time are not made at all:
  in \<open>a[0].b\<close> the reference \<open>b\<close> behind the subscription is read and then dropped.
\<close>

lemma subscription_drops_reference:
  "\<exists>t k s'. r_expression (run 20)
       (before_tokens [tkn ''TEXT'' ''a'', tkn ''P'' ''['', tkn ''INT'' ''0'', tkn ''P'' '']'',
          tkn ''P'' ''.'', tkn ''TEXT'' ''b'']) = Ok (t, k, s') \<and>
     current s' = EOF_token \<and>
     map_sum id out (resume k s') = Ok [Variable ''a'', Subscription, Literal (LInt 0)]"
  by (simp add: eval_simps cong: thenR_cong)

text \<open>
  C7. The type yielded by the first resumption of the ternary producer is the type
  yielded by the boolean producer for the operand in front of \<open>if\<close> (the true branch):
  the first resumption is that of the true branch, and nothing else.
\<close>

theorem ternary_type_is_true_branch:
  "first_yield (r_ternary (run (Suc n)) s) = first_yield (r_boolean (run n) s)"
  by (simp add: ternary_def first_yield_def thenR_def split: sum.splits prod.splits)

text \<open>\<open>1 if true else "x"\<close> infers \<open>int\<close>.\<close>

lemma ternary_example:
  "map_sum id fst (first_yield (r_ternary (run 20)
       (before_tokens [tkn ''INT'' ''1'', tkn ''TEXT'' ''if'', tkn ''TEXT'' ''true'',
          tkn ''TEXT'' ''else'', tkn ''STRING'' ''x'']))) = Ok (Some ''int'')"
  by (simp add: eval_simps first_yield_def cong: thenR_cong)

subsection \<open>The type of an arithmetic chain\<close>




subsection \<open>A name behind \<open>self.\<close>\<close>

text \<open>
  C4 as stated fails: \<open>Input\<close> is a class of the registry, and neither a member nor
  a local. \<open>self.Input\<close> yields the type \<open>Input\<close>, the singleton interpretation, and
  for \<open>self.Input.x\<close> the backend receives a singleton reference.
\<close>

theorem self_keeps_singleton:
  "yielded_type (r_textCode (run 20)
       (before_tokens [tkn ''TEXT'' ''self'', tkn ''P'' ''.'', tkn ''TEXT'' ''Input'']))
     = Some ''Input'' \<and>
   map_sum id out (resume_twice (r_textCode (run 20)
       (before_tokens [tkn ''TEXT'' ''self'', tkn ''P'' ''.'', tkn ''TEXT'' ''Input'',
          tkn ''P'' ''.'', tkn ''TEXT'' ''x''])))
     = Ok [This, Singleton ''Input'', Reference ''x'']"
  by (simp add: eval_simps yielded_type_def resume_twice_def cong: thenR_cong)

text \<open>
  C4, as the code has it. A leading \<open>self.\<close> changes nothing of the resolution of
  the name behind it: when \<open>textCode\<close> yields for the bare name, it yields the same
  type at the same place for the qualified name, and its second resumption makes the
  calls of the bare name after one more call, \<open>this\<close>. So the singleton interpretation
  applies to a qualified name as it does to a bare one.
\<close>

theorem self_only_adds_this:
  assumes "tvalue (current s) = ''self''" and "match_value [''.''] (advance s)"
    and "tvalue (current (advance (advance s))) \<noteq> ''self''"
    and "r_textCode (run (Suc n)) (advance (advance s)) = Ok (t, k0, s')"
  shows "\<exists>k. r_textCode (run (Suc n)) s = Ok (t, k, s') \<and>
           (\<forall>st. resume k st = resume k0 (emit This st))"
proof -
  let ?s2 = "advance (advance s)"
  let ?n = "tvalue (current ?s2)"
  let ?s3 = "advance ?s2"
  let ?R = "run n"
  obtain ty where ty: "textCode_type ?n (godot_types ?s3 ?n \<noteq> None) ?s3 = Ok ty"
    using assms(3,4)
    by (cases "textCode_type ?n (godot_types ?s3 ?n \<noteq> None) ?s3")
      (auto simp: textCode_def consume_def Let_def)
  consider (call) "match_value [''(''] ?s3"
    | (ref) "\<not> match_value [''(''] ?s3" "match_value [''.''] ?s3"
    | (sub) "\<not> match_value [''(''] ?s3" "\<not> match_value [''.''] ?s3" "match_value [''[''] ?s3"
    | (name) "\<not> match_value [''(''] ?s3" "\<not> match_value [''.''] ?s3"
        "\<not> match_value [''[''] ?s3"
    by blast
  then show ?thesis
  proof cases
    case call
    with assms ty show ?thesis
      by (cases "r_call ?R ?n None (advance ?s3)")
        (auto simp: textCode_def consume_def expect_def Let_def resume_def)
  next
    case ref
    with assms ty show ?thesis
      by (cases "r_reference ?R ty (advance ?s3)")
        (auto simp: textCode_def consume_def expect_def Let_def resume_def)
  next
    case sub
    with assms ty show ?thesis
      by (cases "r_subscription ?R ty (advance ?s3)")
        (auto simp: textCode_def consume_def expect_def Let_def resume_def)
  next
    case name
    with assms ty show ?thesis
      by (auto simp: textCode_def consume_def expect_def Let_def resume_def)
  qed
qed

text \<open>\<open>self.Input.x\<close> and \<open>Input.x\<close>.\<close>

theorem self_only_adds_this_witness:
  "tvalue (current (before_tokens [tkn ''TEXT'' ''self'', tkn ''P'' ''.'', tkn ''TEXT'' ''Input'',
      tkn ''P'' ''.'', tkn ''TEXT'' ''x''])) = ''self'' \<and>
   (\<exists>t k0 s'. r_textCode (run 20) (advance (advance
        (before_tokens [tkn ''TEXT'' ''self'', tkn ''P'' ''.'', tkn ''TEXT'' ''Input'',
           tkn ''P'' ''.'', tkn ''TEXT'' ''x'']))) = Ok (t, k0, s') \<and>
      map_sum id out (resume k0 s') = Ok [Singleton ''Input'', Reference ''x''] \<and>
      (\<exists>k. r_textCode (run 20)
             (before_tokens [tkn ''TEXT'' ''self'', tkn ''P'' ''.'', tkn ''TEXT'' ''Input'',
                tkn ''P'' ''.'', tkn ''TEXT'' ''x'']) = Ok (t, k, s') \<and>
           map_sum id out (resume k s') = Ok [This, Singleton ''Input'', Reference ''x'']))"
proof -
  let ?s = "before_tokens [tkn ''TEXT'' ''self'', tkn ''P'' ''.'', tkn ''TEXT'' ''Input'',
      tkn ''P'' ''.'', tkn ''TEXT'' ''x'']"
  have h: "tvalue (current ?s) = ''self''" "match_value [''.''] (advance ?s)"
    "tvalue (current (advance (advance ?s))) \<noteq> ''self''"
    by (simp_all add: example_defs advance_def match_value_def)
  have "\<exists>t k0 s'. r_textCode (run 20) (advance (advance ?s)) = Ok (t, k0, s') \<and>
      map_sum id out (resume k0 s') = Ok [Singleton ''Input'', Reference ''x''] \<and>
      map_sum id out (resume k0 (emit This s')) = Ok [This, Singleton ''Input'', Reference ''x'']"
    by (simp add: eval_simps cong: thenR_cong)
  then obtain t k0 s' where b: "r_textCode (run 20) (advance (advance ?s)) = Ok (t, k0, s')"
    and o: "map_sum id out (resume k0 s') = Ok [Singleton ''Input'', Reference ''x'']"
    and o': "map_sum id out (resume k0 (emit This s'))
        = Ok [This, Singleton ''Input'', Reference ''x'']"
    by blast
  have n: "Suc 19 = (20::nat)" by simp
  from b have b': "r_textCode (run (Suc 19)) (advance (advance ?s)) = Ok (t, k0, s')"
    unfolding n .
  from self_only_adds_this [OF h b']
  obtain k where k: "r_textCode (run (Suc 19)) ?s = Ok (t, k, s')"
    and r: "\<And>st. resume k st = resume k0 (emit This st)"
    by blast
  from k have k': "r_textCode (run 20) ?s = Ok (t, k, s')" unfolding n .
  from o' r have "map_sum id out (resume k s') = Ok [This, Singleton ''Input'', Reference ''x'']"
    by simp
  with k' have "\<exists>k. r_textCode (run 20) ?s = Ok (t, k, s') \<and>
      map_sum id out (resume k s') = Ok [This, Singleton ''Input'', Reference ''x'']"
    by blast
  with b o have "\<exists>t k0 s'. r_textCode (run 20) (advance (advance ?s)) = Ok (t, k0, s') \<and>
      map_sum id out (resume k0 s') = Ok [Singleton ''Input'', Reference ''x''] \<and>
      (\<exists>k. r_textCode (run 20) ?s = Ok (t, k, s') \<and>
           map_sum id out (resume k s') = Ok [This, Singleton ''Input'', Reference ''x''])"
    by blast
  with h(1) show ?thesis by (rule conjI)
qed

subsection \<open>The type of an expression\<close>



subsection \<open>The type of a declaration\<close>





subsection \<open>The variable of a \<open>for\<close> loop\<close>




subsection \<open>The passes over the script\<close>

lemma script_head_out:
  "out (snd (script_tool s)) = out s" "out (snd (script_base s)) = out s"
  "panics (out (script_class tool base s)) = panics (out s)"
  by (auto simp: script_tool_def script_base_def script_class_def expect_def consume_def
      new_ClassData_def is_panic_def split: prod.splits option.splits if_splits)

lemma endline_panics: "endline n b s = Ok s' \<Longrightarrow> panics (out s') = panics (out s)"
  using endline_post [of n b s] by (auto simp: grows_def dest!: postD)

lemma transpile_header_panics:
  assumes "transpile_header R s = Ok s'"
  shows "panics (out s') = panics (out s)"
proof -
  from assms obtain s1 s3 s5 where
    1: "endline (fuel R) False s = Ok s1"
    and 2: "endline (fuel R) False (snd (script_tool s1)) = Ok s3"
    and 3: "endline (fuel R) False (snd (script_base s3)) = Ok s5"
    and 4: "endline (fuel R) False
              (script_class (fst (script_tool s1)) (fst (script_base s3)) s5) = Ok s'"
    by (auto simp: transpile_header_def elim!: thenR_OkE split: prod.splits)
  show ?thesis
    using endline_panics [OF 1] endline_panics [OF 2] endline_panics [OF 3] endline_panics [OF 4]
    by (simp add: script_head_out)
qed

lemma class_body_loop_grows:
  assumes "class_body_loop (run n) s = Ok s'"
  shows "grows s s'"
proof -
  have S: "statements_ok (run n)" by (rule statements_ok_run)
  have "post (doWhile (fuel (run n)) (\<lambda>(u, s). (True, s))
          (\<lambda>(u, s). thenR (r_class_body (run n) s) (\<lambda>s1. Ok (u, s1))) None ((), s))
        (\<lambda>(a', s'). grows s s')"
    by (rule doWhile_grows)
      (auto intro!: post_struct post_mono [OF stmt_posts(1) [OF S]])
  with assms show ?thesis
    by (auto simp: class_body_loop_def elim!: thenR_OkE dest!: postD)
qed

lemma panic_adds_one:
  assumes "panic R s = Ok s'"
  shows "\<exists>c. is_panic c \<and> panics (out s') = panics (out s) @ [c]"
proof -
  from assms obtain line s1 s2 where c: "consumeUntil (fuel R) ''LINE_END'' '' '' s = Ok (line, s1)"
    and e: "endline (fuel R) False s1 = Ok s2"
    and s': "s' = emit (LineComment (Panic (escape_newlines line)
                 (if cur_id s2 = cur_id s then current s2 else current s))) s2"
    by (auto simp: panic_def elim!: thenR_OkE)
  from consumeUntil_post [of "fuel R" "''LINE_END''" "'' ''" s] c have "out s1 = out s"
    by (auto simp: silent_def dest!: postD)
  with endline_panics [OF e] s' show ?thesis
    by (auto simp: is_panic_def)
qed

text \<open>
  C1 as stated fails: the script has two unparsable lines and then the valid line
  \<open>var x\<close>. Two panic comments are emitted, the script is ended, and \<open>var x\<close> is
  neither transpiled nor consumed.
\<close>

theorem content_after_second_panic_is_dropped:
  "\<exists>s s'.
     example_script [tkn ''P'' '')'', tkn ''LINE_END'' ''0'', tkn ''P'' '')'', tkn ''LINE_END'' ''0'',
       tkn ''TEXT'' ''var'', tkn ''TEXT'' ''x'', tkn ''LINE_END'' ''0''] = Ok s \<and>
     transpile 30 s = Ok s' \<and>
     out s' =
       [Write [], Write [], Write [], DefineClass ''script'' ''Object'' False,
        Write [], Write [], Write [CHR 0x0A], Write [],
        LineComment (Panic '')'' (tkn ''P'' '')'')), Write [],
        Write [CHR 0x0A], Write [],
        LineComment (Panic '')'' (tkn ''P'' '')'')), EndScript] \<and>
     current s' = tkn ''TEXT'' ''var'' \<and>
     tokens s' = [tkn ''TEXT'' ''x'', tkn ''LINE_END'' ''0'']"
  by (simp add: eval_simps cong: thenR_cong)

text \<open>
  C1, as the code has it. When the class-body loop stops a second time before the
  end of the input, and the line is dropped a second time, the script is over:
  \<open>transpile\<close> ends the script there, with exactly two panic comments more than
  before and with everything behind the second dropped line unconsumed, valid or
  not. What stands between the two dropped lines is transpiled by the second pass.
\<close>

theorem second_panic_ends_script:
  assumes h: "transpile_header (run n) s = Ok s0"
    and p1: "class_body_loop (run n) s0 = Ok s1" and n1: "\<not> match_type [''EOF''] s1"
    and k1: "panic (run n) s1 = Ok s2"
    and p2: "class_body_loop (run n) s2 = Ok s3" and n2: "\<not> match_type [''EOF''] s3"
    and k2: "panic (run n) s3 = Ok s4"
  shows "\<exists>s'. transpile n s = Ok s' \<and> out s' = out s4 @ [EndScript] \<and>
      current s' = current s4 \<and> tokens s' = tokens s4 \<and>
      (\<exists>c1 c2. is_panic c1 \<and> is_panic c2 \<and> panics (out s') = panics (out s) @ [c1, c2])"
proof -
  have t: "transpile n s = Ok (emit EndScript s4)"
    using h p1 n1 k1 p2 n2 k2
    by (simp add: transpile_def transpile_with_def script_pass_def numeral_2_eq_2)
  from transpile_header_panics [OF h] class_body_loop_grows [OF p1]
  have 1: "panics (out s1) = panics (out s)" by (simp add: grows_def)
  from panic_adds_one [OF k1] obtain c1 where c1: "is_panic c1"
    and 2: "panics (out s2) = panics (out s1) @ [c1]" by blast
  from class_body_loop_grows [OF p2] have 3: "panics (out s3) = panics (out s2)"
    by (simp add: grows_def)
  from panic_adds_one [OF k2] obtain c2 where c2: "is_panic c2"
    and 4: "panics (out s4) = panics (out s3) @ [c2]" by blast
  have "panics (out (emit EndScript s4)) = panics (out s) @ [c1, c2]"
    using 1 2 3 4 by (simp add: is_panic_def)
  with c1 c2 t show ?thesis
    by (auto simp: emit_def)
qed

text \<open>
  Three unparsable lines: two panic comments, and the third line is left where it
  stands.
\<close>

theorem second_panic_ends_script_witness:
  "\<exists>s s0 s1 s2 s3 s4 s'.
     example_script [tkn ''P'' '')'', tkn ''LINE_END'' ''0'', tkn ''P'' '')'', tkn ''LINE_END'' ''0'',
       tkn ''P'' '')'', tkn ''LINE_END'' ''0''] = Ok s \<and>
     transpile_header (run 30) s = Ok s0 \<and>
     class_body_loop (run 30) s0 = Ok s1 \<and> \<not> match_type [''EOF''] s1 \<and>
     panic (run 30) s1 = Ok s2 \<and>
     class_body_loop (run 30) s2 = Ok s3 \<and> \<not> match_type [''EOF''] s3 \<and>
     panic (run 30) s3 = Ok s4 \<and>
     current s4 = tkn ''P'' '')'' \<and> tokens s4 = [tkn ''LINE_END'' ''0''] \<and>
     transpile 30 s = Ok s' \<and> length (panics (out s')) = 2 \<and>
     current s' = tkn ''P'' '')'' \<and> tokens s' = [tkn ''LINE_END'' ''0'']"
proof -
  have "\<exists>s s0 s1 s2 s3 s4.
     example_script [tkn ''P'' '')'', tkn ''LINE_END'' ''0'', tkn ''P'' '')'', tkn ''LINE_END'' ''0'',
       tkn ''P'' '')'', tkn ''LINE_END'' ''0''] = Ok s \<and>
     transpile_header (run 30) s = Ok s0 \<and>
     class_body_loop (run 30) s0 = Ok s1 \<and> \<not> match_type [''EOF''] s1 \<and>
     panic (run 30) s1 = Ok s2 \<and>
     class_body_loop (run 30) s2 = Ok s3 \<and> \<not> match_type [''EOF''] s3 \<and>
     panic (run 30) s3 = Ok s4 \<and>
     current s4 = tkn ''P'' '')'' \<and> tokens s4 = [tkn ''LINE_END'' ''0''] \<and> out s = []"
    by (simp add: eval_simps cong: thenR_cong)
  then obtain s s0 s1 s2 s3 s4 where
    e: "example_script [tkn ''P'' '')'', tkn ''LINE_END'' ''0'', tkn ''P'' '')'',
          tkn ''LINE_END'' ''0'', tkn ''P'' '')'', tkn ''LINE_END'' ''0''] = Ok s"
    and h: "transpile_header (run 30) s = Ok s0"
    and p1: "class_body_loop (run 30) s0 = Ok s1" and n1: "\<not> match_type [''EOF''] s1"
    and k1: "panic (run 30) s1 = Ok s2"
    and p2: "class_body_loop (run 30) s2 = Ok s3" and n2: "\<not> match_type [''EOF''] s3"
    and k2: "panic (run 30) s3 = Ok s4"
    and c: "current s4 = tkn ''P'' '')''" "tokens s4 = [tkn ''LINE_END'' ''0'']"
    and o: "out s = []"
    by blast
  from second_panic_ends_script [OF h p1 n1 k1 p2 n2 k2] obtain s' where
    t: "transpile 30 s = Ok s'" and c': "current s' = current s4" "tokens s' = tokens s4"
    and "\<exists>c1 c2. panics (out s') = panics (out s) @ [c1, c2]"
    by blast
  with o have "length (panics (out s')) = 2" by auto
  with e h p1 n1 k1 p2 n2 k2 c t c' show ?thesis by auto
qed

subsection \<open>The base class of a script\<close>

lemma down_scopes_base_class [simp]: "base_class (down_scopes b i n s) = base_class s"
  by (induction n arbitrary: s i) (simp_all add: Let_def emit_def)





lemma script_tool_registry [simp]: "godot_types (snd (script_tool s)) = godot_types s"
  by (auto simp: script_tool_def expect_def split: prod.splits if_splits)

lemma script_base_registry [simp]: "godot_types (snd (script_base s)) = godot_types s"
  by (auto simp: script_base_def expect_def consume_def split: prod.splits if_splits)



subsection \<open>The class data and the registry\<close>

text \<open>
  C2 fails in the code. The class data of a script is a shallow copy of the entry of
  its base class: a new object with the same three tables. The member \<open>x\<close> that the
  script \<open>var x\<close> declares is written into the member table of the entry \<open>Object\<close>
  of the registry, where it was not before.
\<close>

theorem declared_member_enters_registry:
  "\<exists>s s'.
     example_script [tkn ''TEXT'' ''var'', tkn ''TEXT'' ''x'', tkn ''LINE_END'' ''0''] = Ok s \<and>
     registry_member s ''Object'' ''x'' = None \<and>
     transpile 30 s = Ok s' \<and>
     godot_types s' = godot_types s \<and>
     registry_member s' ''Object'' ''x'' = Some (Some ''Variant'')"
  by (simp add: eval_simps registry_member_def cong: thenR_cong)

end
